theory Spec2Isabelle
  imports Main "HOL-Library.Sublist" "HOL-Library.Char_ord" "HOL-Library.List_Lexorder"
begin

section \<open>Python values and the operations the dashboard uses on them\<close>

text \<open>
  Both programs (\<^verbatim>\<open>app.py\<close> and \<^verbatim>\<open>app7.py\<close>) work on the value that
  \<^verbatim>\<open>resp.json()\<close> returns: Python dicts, lists, strings, numbers, booleans and
  \<^verbatim>\<open>None\<close>. A dict is an association list that holds every key once; a lookup
  reads the entry of the key. Numbers are kept as integers: the code only ever tests
  a number for truth, and a non-integer number behaves there as a non-zero integer.
  A character is a code point below 256.
\<close>

datatype json =
    JNull
  | JBool bool
  | JNum int
  | JStr string
  | JArr "json list"
  | JObj "(string \<times> json) list"

text \<open>
  The exceptions the code can meet. \<^verbatim>\<open>RequestException\<close> stands for every
  exception of the HTTP client (connection failure, timeout, a status that
  \<^verbatim>\<open>raise_for_status\<close> rejects, a body that is not JSON); it is the only one a
  handler of the programs catches. \<^verbatim>\<open>AttributeError\<close> is raised by
  \<^verbatim>\<open>.get\<close> on a value that is not a dict and by \<^verbatim>\<open>.strip\<close> on a value that is
  not a string; \<^verbatim>\<open>TypeError\<close> by a \<^verbatim>\<open>for\<close> loop over a value that cannot be
  iterated and by \<^verbatim>\<open>join\<close> on an item that is not a string.
\<close>

datatype py_error = AttributeError | TypeError | RequestException

text \<open>Sequencing of statements that may raise: the first exception ends the block.\<close>

definition obind :: "py_error + 'a \<Rightarrow> ('a \<Rightarrow> py_error + 'b) \<Rightarrow> py_error + 'b" where
  "obind m f = (case m of Inl e \<Rightarrow> Inl e | Inr x \<Rightarrow> f x)"

text \<open>Truth value of a Python object, as \<^verbatim>\<open>if x:\<close>, \<^verbatim>\<open>not x\<close> and \<^verbatim>\<open>x or y\<close> read it.\<close>

fun truthy :: "json \<Rightarrow> bool" where
  "truthy JNull = False"
| "truthy (JBool b) = b"
| "truthy (JNum n) = (n \<noteq> 0)"
| "truthy (JStr s) = (s \<noteq> [])"
| "truthy (JArr xs) = (xs \<noteq> [])"
| "truthy (JObj kvs) = (kvs \<noteq> [])"

definition py_or :: "json \<Rightarrow> json \<Rightarrow> json" where
  "py_or a b = (if truthy a then a else b)"

text \<open>\<^verbatim>\<open>d.get(k, default)\<close>; \<^verbatim>\<open>d.get(k)\<close> is \<^verbatim>\<open>d.get(k, None)\<close>.\<close>

fun dict_get :: "json \<Rightarrow> string \<Rightarrow> json \<Rightarrow> py_error + json" where
  "dict_get (JObj kvs) k d = Inr (case map_of kvs k of Some v \<Rightarrow> v | None \<Rightarrow> d)"
| "dict_get _ k d = Inl AttributeError"

text \<open>
  The items a \<^verbatim>\<open>for\<close> loop (or \<^verbatim>\<open>join\<close>) visits: the elements of a list, the
  characters of a string, the keys of a dict.
\<close>

fun py_iter :: "json \<Rightarrow> py_error + json list" where
  "py_iter (JArr xs) = Inr xs"
| "py_iter (JStr s) = Inr (map (\<lambda>c. JStr [c]) s)"
| "py_iter (JObj kvs) = Inr (map (\<lambda>kv. JStr (fst kv)) kvs)"
| "py_iter _ = Inl TypeError"

text \<open>A \<^verbatim>\<open>for\<close> loop whose body updates one variable and may raise.\<close>

fun for_each :: "('s \<Rightarrow> json \<Rightarrow> py_error + 's) \<Rightarrow> json list \<Rightarrow> 's \<Rightarrow> py_error + 's" where
  "for_each body [] st = Inr st"
| "for_each body (x # xs) st = obind (body st x) (for_each body xs)"

text \<open>\<^verbatim>\<open>str.strip()\<close>: white space is removed at both ends.\<close>

definition py_isspace :: "char \<Rightarrow> bool" where
  "py_isspace c = ((of_char c :: nat) \<in> {9, 10, 11, 12, 13, 28, 29, 30, 31, 32, 133, 160})"

definition strip :: "string \<Rightarrow> string" where
  "strip s = rev (dropWhile py_isspace (rev (dropWhile py_isspace s)))"

fun py_strip :: "json \<Rightarrow> py_error + string" where
  "py_strip (JStr s) = Inr (strip s)"
| "py_strip _ = Inl AttributeError"

text \<open>\<^verbatim>\<open>sep.join(items)\<close>.\<close>

fun join :: "string \<Rightarrow> string list \<Rightarrow> string" where
  "join sep [] = []"
| "join sep [x] = x"
| "join sep (x # y # ys) = x @ sep @ join sep (y # ys)"

fun as_strs :: "json list \<Rightarrow> py_error + string list" where
  "as_strs [] = Inr []"
| "as_strs (JStr s # vs) = obind (as_strs vs) (\<lambda>ss. Inr (s # ss))"
| "as_strs (_ # vs) = Inl TypeError"

definition py_join :: "string \<Rightarrow> json \<Rightarrow> py_error + string" where
  "py_join sep v = obind (py_iter v) (\<lambda>items. obind (as_strs items) (\<lambda>ss. Inr (join sep ss)))"

text \<open>\<^verbatim>\<open>sub in s\<close> on two strings: \<^verbatim>\<open>sub\<close> occurs in \<^verbatim>\<open>s\<close> as a contiguous run.\<close>

fun py_str_in :: "string \<Rightarrow> string \<Rightarrow> bool" where
  "py_str_in sub [] = (sub = [])"
| "py_str_in sub (c # cs) = (prefix sub (c # cs) \<or> py_str_in sub cs)"

text \<open>\<^verbatim>\<open>s.split(", ")\<close>: the pieces of \<^verbatim>\<open>s\<close> between the occurrences of comma-space,
  read from the left; \<^verbatim>\<open>acc\<close> is the piece being read.\<close>

fun split_comma :: "string \<Rightarrow> string \<Rightarrow> string list" where
  "split_comma acc [] = [acc]"
| "split_comma acc [c] = [acc @ [c]]"
| "split_comma acc (c # d # cs) =
     (if c = CHR '','' \<and> d = CHR '' '' then acc # split_comma [] cs
      else split_comma (acc @ [c]) (d # cs))"

definition py_split :: "string \<Rightarrow> string list" where
  "py_split s = split_comma [] s"

text \<open>\<^verbatim>\<open>str.lower()\<close> on code points below 256.\<close>

definition lower_char :: "char \<Rightarrow> char" where
  "lower_char c =
     (let n = (of_char c :: nat)
      in if (65 \<le> n \<and> n \<le> 90) \<or> (192 \<le> n \<and> n \<le> 222 \<and> n \<noteq> 215)
         then char_of (n + 32) else c)"

definition lower :: "string \<Rightarrow> string" where
  "lower s = map lower_char s"

text \<open>
  A Python \<^verbatim>\<open>set\<close> of strings, kept as a list without repetition; \<^verbatim>\<open>add\<close> leaves
  the set as it is when the element is already a member. \<^verbatim>\<open>sorted\<close> puts the
  members in the order of their code points.
\<close>

type_synonym str_set = "string list"

definition set_add :: "string \<Rightarrow> str_set \<Rightarrow> str_set" where
  "set_add x vs = (if x \<in> set vs then vs else vs @ [x])"

definition sorted_strs :: "str_set \<Rightarrow> string list" where
  "sorted_strs vs = sort vs"

section \<open>The record normalizer of the listing (app7.py, lines 39 to 70)\<close>

record trial_summary =
  NCT_ID :: json
  Title :: json
  Phase :: string
  Status :: json
  Sponsor :: json
  Vaccines :: string

text \<open>Lines 49 to 52: one intervention item. An item whose name is missing or has
  no truth value adds nothing.\<close>

definition add_intervention :: "str_set \<Rightarrow> json \<Rightarrow> py_error + str_set" where
  "add_intervention vaccines item =
     obind (dict_get item ''name'' JNull) (\<lambda>name.
       if truthy name then obind (py_strip name) (\<lambda>n. Inr (set_add n vaccines))
       else Inr vaccines)"

text \<open>Lines 54 and 55: one name of an arm group, added without a test.\<close>

definition add_arm_name :: "str_set \<Rightarrow> json \<Rightarrow> py_error + str_set" where
  "add_arm_name vaccines name = obind (py_strip name) (\<lambda>n. Inr (set_add n vaccines))"

definition add_arm :: "str_set \<Rightarrow> json \<Rightarrow> py_error + str_set" where
  "add_arm vaccines arm =
     obind (dict_get arm ''interventionNames'' (JArr [])) (\<lambda>names.
     obind (py_iter names) (\<lambda>ns. for_each add_arm_name ns vaccines))"

text \<open>Lines 48 to 55 (and again lines 105 to 112): the product set of a trial.\<close>

definition extract_vaccines :: "json \<Rightarrow> py_error + str_set" where
  "extract_vaccines arms =
     obind (dict_get arms ''interventions'' (JArr [])) (\<lambda>interventions.
     obind (py_iter interventions) (\<lambda>items.
     obind (for_each add_intervention items []) (\<lambda>vaccines.
     obind (dict_get arms ''armGroups'' (JArr [])) (\<lambda>arm_groups.
     obind (py_iter arm_groups) (\<lambda>groups.
     for_each add_arm groups vaccines)))))"

text \<open>\<^verbatim>\<open>ident.get("briefTitle") or ident.get("officialTitle") or "No title"\<close>.\<close>

definition title_of :: "json \<Rightarrow> py_error + json" where
  "title_of ident =
     obind (dict_get ident ''briefTitle'' JNull) (\<lambda>brief.
       if truthy brief then Inr brief
       else obind (dict_get ident ''officialTitle'' JNull) (\<lambda>official.
         Inr (py_or official (JStr ''No title''))))"

text \<open>\<^verbatim>\<open>design.get("phases") or ["Not reported"]\<close>.\<close>

definition phases_of :: "json \<Rightarrow> py_error + json" where
  "phases_of design =
     obind (dict_get design ''phases'' JNull) (\<lambda>phases.
       Inr (py_or phases (JArr [JStr ''Not reported''])))"

text \<open>\<^verbatim>\<open>sponsor.get("leadSponsor", {}).get("name", "Unknown")\<close>.\<close>

definition sponsor_name_of :: "json \<Rightarrow> py_error + json" where
  "sponsor_name_of sponsor =
     obind (dict_get sponsor ''leadSponsor'' (JObj [])) (\<lambda>lead.
       dict_get lead ''name'' (JStr ''Unknown''))"

text \<open>\<^verbatim>\<open>", ".join(sorted(vaccines)) if vaccines else "Not reported"\<close>.\<close>

definition vaccines_column :: "str_set \<Rightarrow> string" where
  "vaccines_column vaccines =
     (if vaccines \<noteq> [] then join '', '' (sorted_strs vaccines) else ''Not reported'')"

text \<open>The body of the loop over the studies of a page, for one study \<^verbatim>\<open>s\<close>, in the
  order in which the statements run.\<close>

definition summary_of :: "json \<Rightarrow> py_error + trial_summary" where
  "summary_of s =
     obind (dict_get s ''protocolSection'' (JObj [])) (\<lambda>proto.
     obind (dict_get proto ''identificationModule'' (JObj [])) (\<lambda>ident.
     obind (dict_get proto ''designModule'' (JObj [])) (\<lambda>design.
     obind (dict_get proto ''statusModule'' (JObj [])) (\<lambda>status.
     obind (dict_get proto ''sponsorCollaboratorsModule'' (JObj [])) (\<lambda>sponsor.
     obind (dict_get proto ''armsInterventionsModule'' (JObj [])) (\<lambda>arms.
     obind (extract_vaccines arms) (\<lambda>vaccines.
     obind (dict_get ident ''nctId'' JNull) (\<lambda>nct_id.
     obind (title_of ident) (\<lambda>title.
     obind (phases_of design) (\<lambda>phase.
     obind (dict_get status ''overallStatus'' JNull) (\<lambda>reported_status.
     obind (sponsor_name_of sponsor) (\<lambda>sponsor_name.
     obind (py_join '', '' phase) (\<lambda>phase_column.
     Inr \<lparr> NCT_ID = nct_id,
           Title = title,
           Phase = phase_column,
           Status = py_or reported_status (JStr ''Unknown''),
           Sponsor = sponsor_name,
           Vaccines = vaccines_column vaccines \<rparr>)))))))))))))"

section \<open>The filters of the listing (app7.py, lines 195 to 203; app.py, lines 119 to 127)\<close>

text \<open>
  \<^verbatim>\<open>df[df["Phase"].apply(lambda x: any(ph in x for ph in selected_phases))]\<close>: the
  rows whose phase column passes the test, in their order. The column holds the
  joined string, so \<^verbatim>\<open>ph in x\<close> is the test of one string in another. The
  rows of \<^verbatim>\<open>app.py\<close> have the same columns but for the last one, and the same
  two lines filter them; the competitor table of \<^verbatim>\<open>app7.py\<close> (lines 401 and 402)
  is filtered the same way.
\<close>

definition phase_admits :: "string list \<Rightarrow> trial_summary \<Rightarrow> bool" where
  "phase_admits selected_phases row = list_ex (\<lambda>ph. py_str_in ph (Phase row)) selected_phases"

definition phase_filter :: "string list \<Rightarrow> trial_summary list \<Rightarrow> trial_summary list" where
  "phase_filter selected_phases df = filter (phase_admits selected_phases) df"

text \<open>\<^verbatim>\<open>df_filtered[df_filtered["Status"].isin(selected_status)]\<close>.\<close>

definition status_filter :: "json list \<Rightarrow> trial_summary list \<Rightarrow> trial_summary list" where
  "status_filter selected_status df = filter (\<lambda>row. Status row \<in> set selected_status) df"

definition df_filtered :: "string list \<Rightarrow> json list \<Rightarrow> trial_summary list \<Rightarrow> trial_summary list" where
  "df_filtered selected_phases selected_status df =
     status_filter selected_status (phase_filter selected_phases df)"

text \<open>
  \<^verbatim>\<open>sorted({p for ph in df["Phase"] for p in ph.split(", ")})\<close> (app7.py, lines
  195 and 394; app.py, line 119): the phases the sidebar offers for selection are the
  pieces of the phase columns, each once, in sorted order.
\<close>

definition phase_options :: "trial_summary list \<Rightarrow> string list" where
  "phase_options df = sorted_strs (remdups (concat (map (\<lambda>row. py_split (Phase row)) df)))"

text \<open>Two trials as the listing normalizes them, one in early phase 1 and one in
  phase 1.\<close>

definition early_phase1_row :: trial_summary where
  "early_phase1_row =
     \<lparr> NCT_ID = JStr ''NCT00000001'', Title = JStr ''Trial A'', Phase = ''EARLY_PHASE1'',
       Status = JStr ''COMPLETED'', Sponsor = JStr ''Acme'', Vaccines = ''Not reported'' \<rparr>"

definition phase1_row :: trial_summary where
  "phase1_row =
     \<lparr> NCT_ID = JStr ''NCT00000002'', Title = JStr ''Trial B'', Phase = ''PHASE1'',
       Status = JStr ''COMPLETED'', Sponsor = JStr ''Acme'', Vaccines = ''Not reported'' \<rparr>"

section \<open>The record normalizer of the detail view (app7.py, lines 95 to 142)\<close>

text \<open>An outcome measure: its title and its description.\<close>

type_synonym outcome = "json \<times> json"

record trial_detail =
  det_Title :: json
  det_Phase :: string
  det_Status :: json
  det_Sponsor :: json
  det_Vaccines :: "string list"
  det_Diseases :: json
  det_Outcomes :: "outcome list"

text \<open>Lines 122 to 125: one outcome measure.\<close>

definition add_outcome :: "outcome list \<Rightarrow> json \<Rightarrow> py_error + outcome list" where
  "add_outcome outcomes om =
     obind (dict_get om ''title'' JNull) (\<lambda>title.
     obind (dict_get om ''description'' (JStr [])) (\<lambda>description.
     Inr (outcomes @ [(title, description)])))"

text \<open>Lines 118 to 125: the outcomes, read only when the results section has a
  truth value.\<close>

definition outcomes_of :: "json \<Rightarrow> py_error + outcome list" where
  "outcomes_of results_section =
     (if truthy results_section then
        obind (dict_get results_section ''outcomeMeasuresModule'' (JObj [])) (\<lambda>outcome_module.
        obind (dict_get outcome_module ''outcomeMeasures'' (JArr [])) (\<lambda>measures.
        obind (py_iter measures) (\<lambda>os. for_each add_outcome os [])))
      else Inr [])"

text \<open>\<^verbatim>\<open>sorted(vaccines) if vaccines else ["Not reported"]\<close>.\<close>

definition vaccines_list :: "str_set \<Rightarrow> string list" where
  "vaccines_list vaccines = (if vaccines \<noteq> [] then sorted_strs vaccines else [''Not reported''])"

text \<open>Lines 95 to 142, for the parsed body \<^verbatim>\<open>data\<close> of the response, in the order
  in which the statements run. The status is read with a default and without
  \<^verbatim>\<open>or\<close> (line 131).\<close>

definition detail_of :: "json \<Rightarrow> py_error + trial_detail" where
  "detail_of data =
     obind (dict_get data ''protocolSection'' (JObj [])) (\<lambda>proto.
     obind (dict_get proto ''designModule'' (JObj [])) (\<lambda>design.
     obind (dict_get proto ''statusModule'' (JObj [])) (\<lambda>status.
     obind (dict_get proto ''sponsorCollaboratorsModule'' (JObj [])) (\<lambda>sponsor.
     obind (dict_get proto ''armsInterventionsModule'' (JObj [])) (\<lambda>arms.
     obind (dict_get proto ''conditionsModule'' (JObj [])) (\<lambda>conditions.
     obind (dict_get data ''resultsSection'' (JObj [])) (\<lambda>results_section.
     obind (extract_vaccines arms) (\<lambda>vaccines.
     obind (dict_get conditions ''conditions'' (JArr [])) (\<lambda>disease_list.
     obind (outcomes_of results_section) (\<lambda>outcomes.
     obind (dict_get proto ''identificationModule'' (JObj [])) (\<lambda>ident.
     obind (title_of ident) (\<lambda>title.
     obind (phases_of design) (\<lambda>phases.
     obind (dict_get status ''overallStatus'' (JStr ''Unknown'')) (\<lambda>overall_status.
     obind (sponsor_name_of sponsor) (\<lambda>sponsor_name.
     obind (py_join '', '' phases) (\<lambda>phase_column.
     Inr \<lparr> det_Title = title,
           det_Phase = phase_column,
           det_Status = overall_status,
           det_Sponsor = sponsor_name,
           det_Vaccines = vaccines_list vaccines,
           det_Diseases = disease_list,
           det_Outcomes = outcomes \<rparr>))))))))))))))))"

section \<open>The registry, and the detail fetcher (app7.py, lines 88 to 144)\<close>

text \<open>
  What one request gives: the parsed body of the response, or a failure of the HTTP
  client (\<^verbatim>\<open>requests.get\<close>, \<^verbatim>\<open>raise_for_status\<close> or \<^verbatim>\<open>resp.json\<close> raising
  \<^verbatim>\<open>RequestException\<close>; a not-found status is one of them). The caching decorator
  is left out: the definitions are the bodies of the functions.
\<close>

datatype http_result = Failed | Body json

definition received :: "http_result \<Rightarrow> py_error + json" where
  "received r = (case r of Failed \<Rightarrow> Inl RequestException | Body data \<Rightarrow> Inr data)"

text \<open>\<^verbatim>\<open>try: ... except requests.RequestException: return fallback\<close>; any other
  exception goes on to the caller.\<close>

definition except_request :: "py_error + 'a \<Rightarrow> 'a \<Rightarrow> py_error + 'a" where
  "except_request attempt fallback =
     (case attempt of
        Inl e \<Rightarrow> (if e = RequestException then Inr fallback else Inl e)
      | Inr x \<Rightarrow> Inr x)"

text \<open>The detail fetcher. \<^verbatim>\<open>remote nct_id\<close> is the registry's answer to the request
  for the study \<^verbatim>\<open>nct_id\<close>; the result \<^verbatim>\<open>None\<close> is the sentinel.\<close>

definition fetch_trial_details_with_vaccines ::
    "(json \<Rightarrow> http_result) \<Rightarrow> json \<Rightarrow> py_error + trial_detail option" where
  "fetch_trial_details_with_vaccines remote nct_id =
     except_request
       (obind (received (remote nct_id)) (\<lambda>data.
        obind (detail_of data) (\<lambda>detail. Inr (Some detail))))
       None"

section \<open>The paginated fetcher (app7.py, lines 13 to 85)\<close>

text \<open>
  The registry as the fetcher sees it: the answer to the request number \<^verbatim>\<open>n\<close> of a
  run (counted from 0), for the condition asked and the page token sent (\<^verbatim>\<open>None\<close>
  when the request carries none). What a run does besides returning is recorded as
  a list of events: each request, each \<^verbatim>\<open>time.sleep(1.2)\<close>, and the error message
  of the handler.
\<close>

type_synonym registry = "nat \<Rightarrow> json \<Rightarrow> json option \<Rightarrow> http_result"

datatype event = Request json "json option" | Sleep | Error_shown

text \<open>Lines 39 to 70: the row of one study is appended to the results.\<close>

definition append_summary :: "trial_summary list \<Rightarrow> json \<Rightarrow> py_error + trial_summary list" where
  "append_summary all_results s = obind (summary_of s) (\<lambda>row. Inr (all_results @ [row]))"

text \<open>Lines 35 to 73, for the parsed body \<^verbatim>\<open>data\<close> of one page: either the page has
  no studies (the loop is left at line 37), or its studies are appended and the next
  page token is read.\<close>

datatype page_step = No_studies | Page_done "trial_summary list" json

definition read_page :: "json \<Rightarrow> trial_summary list \<Rightarrow> py_error + page_step" where
  "read_page data all_results =
     obind (dict_get data ''studies'' (JArr [])) (\<lambda>studies.
       if \<not> truthy studies then Inr No_studies
       else
         obind (py_iter studies) (\<lambda>ss.
         obind (for_each append_summary ss all_results) (\<lambda>all_results'.
         obind (dict_get data ''nextPageToken'' JNull) (\<lambda>page_token.
         Inr (Page_done all_results' page_token)))))"

text \<open>\<^verbatim>\<open>if page_token: params["pageToken"] = page_token\<close>.\<close>

definition token_param :: "json \<Rightarrow> json option" where
  "token_param page_token = (if truthy page_token then Some page_token else None)"

text \<open>The \<^verbatim>\<open>while\<close> loop of lines 22 to 80, from the state (\<^verbatim>\<open>all_results\<close>,
  \<^verbatim>\<open>page_token\<close>, \<^verbatim>\<open>page_count\<close>): what the \<^verbatim>\<open>try\<close> block ends with (the
  list returned at line 82, or the exception raised), and the events from there on.\<close>

function fetch_loop ::
    "registry \<Rightarrow> json \<Rightarrow> int \<Rightarrow> trial_summary list \<Rightarrow> json \<Rightarrow> nat
     \<Rightarrow> (py_error + trial_summary list) \<times> event list" where
  "fetch_loop remote disease max_pages all_results page_token page_count =
     (if int page_count < max_pages then
        (case remote page_count disease (token_param page_token) of
           Failed \<Rightarrow> (Inl RequestException, [Request disease (token_param page_token)])
         | Body data \<Rightarrow>
             (case read_page data all_results of
                Inl e \<Rightarrow> (Inl e, [Request disease (token_param page_token)])
              | Inr No_studies \<Rightarrow> (Inr all_results, [Request disease (token_param page_token)])
              | Inr (Page_done all_results' next_token) \<Rightarrow>
                  (if \<not> truthy next_token
                   then (Inr all_results', [Request disease (token_param page_token)])
                   else
                     (case fetch_loop remote disease max_pages all_results' next_token
                             (Suc page_count) of
                        (outcome, events) \<Rightarrow>
                          (outcome, Request disease (token_param page_token) # Sleep # events)))))
      else (Inr all_results, []))"
  by pat_completeness auto
termination
  by (relation "measure (\<lambda>(remote, disease, max_pages, all_results, page_token, page_count).
        nat (max_pages - int page_count))") auto

text \<open>The equation of the loop is unfolded by hand, one iteration at a time.\<close>

declare fetch_loop.simps [simp del]

text \<open>The function: the loop from the empty state, inside the handler of lines 83
  to 85, which shows the error and returns the empty list.\<close>

definition fetch_all_vaccine_trials ::
    "registry \<Rightarrow> json \<Rightarrow> int \<Rightarrow> (py_error + trial_summary list) \<times> event list" where
  "fetch_all_vaccine_trials remote disease max_pages =
     (case fetch_loop remote disease max_pages [] JNull 0 of
        (outcome, events) \<Rightarrow>
          (if outcome = Inl RequestException then (Inr [], events @ [Error_shown])
           else (outcome, events)))"

text \<open>Readings of a list of events.\<close>

fun is_request :: "event \<Rightarrow> bool" where
  "is_request (Request disease sent) = True"
| "is_request _ = False"

definition requests :: "event list \<Rightarrow> event list" where
  "requests events = filter is_request events"

definition sleeps :: "event list \<Rightarrow> nat" where
  "sleeps events = length (filter (\<lambda>e. e = Sleep) events)"

section \<open>The trials of the product itself (app7.py, lines 284 to 310)\<close>

text \<open>
  The body of the loop over the hits of the free-text search, for one hit. The
  product set is built from the intervention items alone (lines 293 to 297). Line
  299 visits the members of the set, and Python leaves the order of that visit open
  (it follows the hashes of the strings, which change from one run of the
  interpreter to the next): \<^verbatim>\<open>visit\<close> is the order in which a run visits the
  members of a set, some arrangement of them.
\<close>

definition add_own_trial ::
    "(str_set \<Rightarrow> string list) \<Rightarrow> string \<Rightarrow> trial_summary list \<Rightarrow> json
     \<Rightarrow> py_error + trial_summary list" where
  "add_own_trial visit vaccine_name vaccine_results study =
     obind (dict_get study ''protocolSection'' (JObj [])) (\<lambda>proto.
     obind (dict_get proto ''identificationModule'' (JObj [])) (\<lambda>ident.
     obind (dict_get proto ''designModule'' (JObj [])) (\<lambda>design.
     obind (dict_get proto ''statusModule'' (JObj [])) (\<lambda>status.
     obind (dict_get proto ''sponsorCollaboratorsModule'' (JObj [])) (\<lambda>sponsor.
     obind (dict_get proto ''armsInterventionsModule'' (JObj [])) (\<lambda>arms.
     obind (dict_get arms ''interventions'' (JArr [])) (\<lambda>interventions.
     obind (py_iter interventions) (\<lambda>items.
     obind (for_each add_intervention items []) (\<lambda>vaccines.
       if py_str_in (lower vaccine_name) (join '' '' (map lower (visit vaccines))) then
         obind (dict_get ident ''nctId'' JNull) (\<lambda>nct_id.
         obind (title_of ident) (\<lambda>title.
         obind (phases_of design) (\<lambda>phases.
         obind (py_join '', '' phases) (\<lambda>phase_column.
         obind (dict_get status ''overallStatus'' JNull) (\<lambda>reported_status.
         obind (sponsor_name_of sponsor) (\<lambda>sponsor_name.
         Inr (vaccine_results @
           [\<lparr> NCT_ID = nct_id,
              Title = title,
              Phase = phase_column,
              Status = py_or reported_status (JStr ''Unknown''),
              Sponsor = sponsor_name,
              Vaccines = vaccines_column vaccines \<rparr>])))))))
       else Inr vaccine_results)))))))))"

definition own_trials ::
    "(str_set \<Rightarrow> string list) \<Rightarrow> string \<Rightarrow> json list \<Rightarrow> py_error + trial_summary list" where
  "own_trials visit vaccine_name studies =
     for_each (add_own_trial visit vaccine_name) studies []"

section \<open>The JSON types of the registry\<close>

text \<open>
  The registry gives every field it reports a fixed JSON type and leaves out the
  fields it has nothing to report for. The predicates below say this of the fields
  the normalizers read: a field is absent, or holds a value of its type. Nothing is
  asked of the fields that are only copied (the identifier, the titles, the status,
  the sponsor's name, the conditions, the page token).
\<close>

definition field_ok :: "(json \<Rightarrow> bool) \<Rightarrow> json \<Rightarrow> string \<Rightarrow> bool" where
  "field_ok P obj k =
     (case obj of
        JObj kvs \<Rightarrow> (case map_of kvs k of None \<Rightarrow> True | Some v \<Rightarrow> P v)
      | _ \<Rightarrow> False)"

fun is_obj :: "json \<Rightarrow> bool" where
  "is_obj (JObj kvs) = True"
| "is_obj _ = False"

fun is_str :: "json \<Rightarrow> bool" where
  "is_str (JStr s) = True"
| "is_str _ = False"

fun is_list_of :: "(json \<Rightarrow> bool) \<Rightarrow> json \<Rightarrow> bool" where
  "is_list_of P (JArr xs) = list_all P xs"
| "is_list_of P _ = False"

definition intervention_ok :: "json \<Rightarrow> bool" where
  "intervention_ok item = field_ok is_str item ''name''"

definition arm_group_ok :: "json \<Rightarrow> bool" where
  "arm_group_ok arm = field_ok (is_list_of is_str) arm ''interventionNames''"

definition arms_ok :: "json \<Rightarrow> bool" where
  "arms_ok arms \<longleftrightarrow>
     field_ok (is_list_of intervention_ok) arms ''interventions''
     \<and> field_ok (is_list_of arm_group_ok) arms ''armGroups''"

definition design_ok :: "json \<Rightarrow> bool" where
  "design_ok design = field_ok (is_list_of is_str) design ''phases''"

definition sponsor_ok :: "json \<Rightarrow> bool" where
  "sponsor_ok sponsor = field_ok is_obj sponsor ''leadSponsor''"

definition proto_ok :: "json \<Rightarrow> bool" where
  "proto_ok proto \<longleftrightarrow>
     field_ok is_obj proto ''identificationModule''
     \<and> field_ok design_ok proto ''designModule''
     \<and> field_ok is_obj proto ''statusModule''
     \<and> field_ok sponsor_ok proto ''sponsorCollaboratorsModule''
     \<and> field_ok arms_ok proto ''armsInterventionsModule''"

text \<open>A raw trial object as the listing reads it.\<close>

definition study_ok :: "json \<Rightarrow> bool" where
  "study_ok s = field_ok proto_ok s ''protocolSection''"

definition results_ok :: "json \<Rightarrow> bool" where
  "results_ok results_section =
     field_ok (\<lambda>m. field_ok (is_list_of is_obj) m ''outcomeMeasures'')
       results_section ''outcomeMeasuresModule''"

text \<open>A raw trial object as the detail view reads it.\<close>

definition detail_ok :: "json \<Rightarrow> bool" where
  "detail_ok data \<longleftrightarrow>
     study_ok data
     \<and> field_ok (\<lambda>proto. field_ok is_obj proto ''conditionsModule'') data ''protocolSection''
     \<and> field_ok results_ok data ''resultsSection''"

text \<open>The body of a page of the search.\<close>

definition page_ok :: "json \<Rightarrow> bool" where
  "page_ok data = field_ok (is_list_of study_ok) data ''studies''"

text \<open>The value reached from \<^verbatim>\<open>v\<close> by a path of keys, if every key of the
  path is present on the way.\<close>

fun field_at :: "json \<Rightarrow> string list \<Rightarrow> json option" where
  "field_at v [] = Some v"
| "field_at (JObj kvs) (k # ks) = (case map_of kvs k of None \<Rightarrow> None | Some v \<Rightarrow> field_at v ks)"
| "field_at _ (k # ks) = None"

section \<open>Pages and runs\<close>

text \<open>Requests and delays alternate, a request first: the shape of the events of the
  loop.\<close>

fun paced :: "event list \<Rightarrow> bool" where
  "paced [] = True"
| "paced [Request disease sent] = True"
| "paced (Request disease sent # Sleep # events) = paced events"
| "paced _ = False"

text \<open>A page that keeps the loop going: its body has the registry's types, its
  studies and its page token have a truth value.\<close>

definition page_continues :: "json \<Rightarrow> bool" where
  "page_continues data \<longleftrightarrow>
     page_ok data
     \<and> (case field_at data [''studies''] of None \<Rightarrow> False | Some studies \<Rightarrow> truthy studies)
     \<and> (case field_at data [''nextPageToken''] of None \<Rightarrow> False | Some t \<Rightarrow> truthy t)"

text \<open>A page with zero records, whatever page token it carries.\<close>

definition page_empty :: "json \<Rightarrow> bool" where
  "page_empty data \<longleftrightarrow>
     is_obj data
     \<and> (case field_at data [''studies''] of None \<Rightarrow> True | Some studies \<Rightarrow> \<not> truthy studies)"

text \<open>The studies of a page, as the loop of line 39 visits them: the items of
  \<^verbatim>\<open>studies\<close>, none when the page has no \<^verbatim>\<open>studies\<close> or when they have no
  truth value (line 36). A body on which line 35 or line 39 raises (it is no dict,
  or its \<^verbatim>\<open>studies\<close> cannot be iterated) has none either: no row is made
  from it.\<close>

definition studies_of :: "json \<Rightarrow> json list" where
  "studies_of data =
     (case dict_get data ''studies'' (JArr []) of
        Inl e \<Rightarrow> []
      | Inr studies \<Rightarrow>
          (if truthy studies then (case py_iter studies of Inl e \<Rightarrow> [] | Inr ss \<Rightarrow> ss) else []))"

text \<open>The studies on the pages that the requests of a run were answered with, in the
  order of the requests; \<^verbatim>\<open>n\<close> is the number of the first request of the list.\<close>

fun requested_studies :: "registry \<Rightarrow> nat \<Rightarrow> event list \<Rightarrow> json list" where
  "requested_studies remote n [] = []"
| "requested_studies remote n (Request disease sent # events) =
     (case remote n disease sent of Failed \<Rightarrow> [] | Body data \<Rightarrow> studies_of data)
     @ requested_studies remote (Suc n) events"
| "requested_studies remote n (Sleep # events) = requested_studies remote n events"
| "requested_studies remote n (Error_shown # events) = requested_studies remote n events"

section \<open>Example trials\<close>

text \<open>A trial for which the registry reports nothing normalizes to this row.\<close>

definition bare_row :: trial_summary where
  "bare_row = \<lparr> NCT_ID = JNull, Title = JStr ''No title'', Phase = ''Not reported'',
       Status = JStr ''Unknown'', Sponsor = JStr ''Unknown'', Vaccines = ''Not reported'' \<rparr>"

text \<open>A trial whose only intervention name is in an arm group and is white space.\<close>

definition blank_arms :: json where
  "blank_arms = JObj [(''armGroups'', JArr [JObj [(''interventionNames'', JArr [JStr ''  ''])]])]"

definition blank_arm_trial :: json where
  "blank_arm_trial = JObj [(''protocolSection'', JObj [(''armsInterventionsModule'', blank_arms)])]"

text \<open>A trial that lists a placebo among its interventions and names Acme-Vax in an
  arm group only.\<close>

definition acme_arms :: json where
  "acme_arms = JObj
     [(''interventions'', JArr [JObj [(''name'', JStr ''Placebo'')]]),
      (''armGroups'', JArr [JObj [(''interventionNames'', JArr [JStr ''Acme-Vax''])]])]"

definition acme_trial :: json where
  "acme_trial = JObj [(''protocolSection'', JObj
     [(''identificationModule'', JObj [(''nctId'', JStr ''NCT00000003'')]),
      (''armsInterventionsModule'', acme_arms)])]"

text \<open>A trial whose phases list is empty.\<close>

definition no_phase_trial :: json where
  "no_phase_trial = JObj [(''protocolSection'', JObj
     [(''designModule'', JObj [(''phases'', JArr [])])])]"

text \<open>A trial whose reported status is the empty string.\<close>

definition empty_status_trial :: json where
  "empty_status_trial = JObj [(''protocolSection'', JObj
     [(''identificationModule'', JObj [(''nctId'', JStr ''NCT00000004''), (''briefTitle'', JStr ''Trial D'')]),
      (''statusModule'', JObj [(''overallStatus'', JStr '''')])])]"

text \<open>A trial with a title, a status, two phases and a sponsor.\<close>

definition recruiting_trial :: json where
  "recruiting_trial = JObj [(''protocolSection'', JObj
     [(''identificationModule'', JObj [(''nctId'', JStr ''NCT00000005''), (''officialTitle'', JStr ''Trial E'')]),
      (''statusModule'', JObj [(''overallStatus'', JStr ''RECRUITING'')]),
      (''designModule'', JObj [(''phases'', JArr [JStr ''PHASE2'', JStr ''PHASE3''])]),
      (''sponsorCollaboratorsModule'', JObj [(''leadSponsor'', JObj [(''name'', JStr ''Acme'')])])])]"

section \<open>Example registries\<close>

text \<open>A registry that answers every request with one study and a page token; the
  registry of the scenario, with pages of 100, 100 and 0 records and tokens on the
  first two; a registry whose page has one study and no token; a registry whose
  second request fails; a registry that knows one study.\<close>

definition token_page :: json where
  "token_page = JObj [(''studies'', JArr [JObj []]), (''nextPageToken'', JStr ''next'')]"

definition endless_registry :: registry where
  "endless_registry n disease sent = Body token_page"

definition full_page :: "string \<Rightarrow> json" where
  "full_page token =
     JObj [(''studies'', JArr (replicate 100 (JObj []))), (''nextPageToken'', JStr token)]"

definition empty_page :: json where
  "empty_page = JObj [(''studies'', JArr [])]"

definition scenario_registry :: registry where
  "scenario_registry n disease sent =
     (if n = 0 then Body (full_page ''t1'')
      else if n = 1 then Body (full_page ''t2'')
      else Body empty_page)"



definition failing_registry :: registry where
  "failing_registry n disease sent = (if n = 0 then Body token_page else Failed)"


definition recruiting_registry :: "json \<Rightarrow> http_result" where
  "recruiting_registry nct_id =
     (if nct_id = JStr ''NCT00000005'' then Body recruiting_trial else Failed)"

section \<open>Facts about the string operations\<close>

lemma obind_Inl: "obind (Inl e) f = Inl e"
  by (simp add: obind_def)

lemma obind_Inr: "obind (Inr x) f = f x"
  by (simp add: obind_def)

lemma obind_eq_Inr:
  "obind m f = Inr y \<longleftrightarrow> (\<exists>x. m = Inr x \<and> f x = Inr y)"
  by (cases m) (simp_all add: obind_def)

lemma py_str_in_iff: "py_str_in sub s \<longleftrightarrow> (\<exists>pre suf. s = pre @ sub @ suf)"
proof (induction s)
  case Nil
  show ?case by auto
next
  case (Cons c cs)
  show ?case
  proof
    assume "py_str_in sub (c # cs)"
    then consider "prefix sub (c # cs)" | "py_str_in sub cs" by auto
    then show "\<exists>pre suf. c # cs = pre @ sub @ suf"
    proof cases
      case 1
      then obtain suf where "c # cs = sub @ suf" by (auto simp: prefix_def)
      then have "c # cs = [] @ sub @ suf" by simp
      then show ?thesis by blast
    next
      case 2
      with Cons.IH obtain pre suf where "cs = pre @ sub @ suf" by blast
      then have "c # cs = (c # pre) @ sub @ suf" by simp
      then show ?thesis by blast
    qed
  next
    assume "\<exists>pre suf. c # cs = pre @ sub @ suf"
    then obtain pre suf where eq: "c # cs = pre @ sub @ suf" by blast
    show "py_str_in sub (c # cs)"
    proof (cases pre)
      case Nil
      with eq have "prefix sub (c # cs)" by (simp add: prefix_def)
      then show ?thesis by simp
    next
      case (Cons p ps)
      with eq have "cs = ps @ sub @ suf" by simp
      with Cons.IH have "py_str_in sub cs" by blast
      then show ?thesis by simp
    qed
  qed
qed

lemma split_comma_token_in:
  "t \<in> set (split_comma acc s) \<Longrightarrow> \<exists>pre suf. acc @ s = pre @ t @ suf"
proof (induction acc s rule: split_comma.induct)
  case (1 acc)
  then have "acc @ [] = [] @ t @ []" by simp
  then show ?case by blast
next
  case (2 acc c)
  then have "acc @ [c] = [] @ t @ []" by simp
  then show ?case by blast
next
  case (3 acc c d cs)
  show ?case
  proof (cases "c = CHR '','' \<and> d = CHR '' ''")
    case True
    with "3.prems" consider "t = acc" | "t \<in> set (split_comma [] cs)" by auto
    then show ?thesis
    proof cases
      case 1
      then have "acc @ c # d # cs = [] @ t @ (c # d # cs)" by simp
      then show ?thesis by blast
    next
      case 2
      with "3.IH"(1) True obtain pre suf where "[] @ cs = pre @ t @ suf" by blast
      then have "acc @ c # d # cs = (acc @ [c, d] @ pre) @ t @ suf" by simp
      then show ?thesis by blast
    qed
  next
    case False
    with "3.prems" have "t \<in> set (split_comma (acc @ [c]) (d # cs))" by auto
    with "3.IH"(2) False obtain pre suf where "(acc @ [c]) @ d # cs = pre @ t @ suf" by blast
    then have "acc @ c # d # cs = pre @ t @ suf" by simp
    then show ?thesis by blast
  qed
qed

lemma token_is_substring: "t \<in> set (py_split s) \<Longrightarrow> py_str_in t s"
  using split_comma_token_in [of t "[]" s] by (simp add: py_split_def py_str_in_iff)

section \<open>Facts about reading fields\<close>

lemma dict_get_Inr_iff:
  "dict_get obj k d = Inr v \<longleftrightarrow>
     (\<exists>kvs. obj = JObj kvs \<and> v = (case map_of kvs k of Some x \<Rightarrow> x | None \<Rightarrow> d))"
  by (cases obj) auto

lemma field_at_step_None:
  assumes "dict_get obj k (JObj []) = Inr v" and "field_at obj (k # k' # ks) = None"
  shows "field_at v (k' # ks) = None"
  using assms by (auto simp: dict_get_Inr_iff split: option.splits)

lemma field_at_step_Some:
  assumes "dict_get obj k (JObj []) = Inr v" and "field_at obj (k # ks) = Some x"
  shows "field_at v ks = Some x"
  using assms by (auto simp: dict_get_Inr_iff split: option.splits)

lemma field_at_leaf:
  assumes "dict_get obj k d = Inr v"
  shows "field_at obj [k] = None \<Longrightarrow> v = d" and "field_at obj [k] = Some x \<Longrightarrow> v = x"
  using assms by (auto simp: dict_get_Inr_iff split: option.splits)

lemma sponsor_name_of_missing:
  assumes "sponsor_name_of sponsor = Inr name" and "field_at sponsor [''leadSponsor''] = None"
  shows "name = JStr ''Unknown''"
proof -
  from assms(1) obtain lead where lead: "dict_get sponsor ''leadSponsor'' (JObj []) = Inr lead"
    and name: "dict_get lead ''name'' (JStr ''Unknown'') = Inr name"
    by (auto simp: sponsor_name_of_def obind_eq_Inr)
  from field_at_leaf(1) [OF lead assms(2)] have "lead = JObj []" .
  with name show ?thesis by simp
qed

lemma phases_of_placeholder:
  assumes "phases_of design = Inr phase"
    and "field_at design [''phases''] = None \<or> field_at design [''phases''] = Some (JArr [])"
  shows "phase = JArr [JStr ''Not reported'']"
proof -
  from assms(1) obtain reported where rep: "dict_get design ''phases'' JNull = Inr reported"
    and phase: "phase = py_or reported (JArr [JStr ''Not reported''])"
    by (auto simp: phases_of_def obind_eq_Inr)
  from assms(2) field_at_leaf [OF rep] have "reported = JNull \<or> reported = JArr []" by blast
  with phase show ?thesis by (auto simp: py_or_def)
qed

lemma py_join_placeholder: "py_join '', '' (JArr [JStr ''Not reported'']) = Inr ''Not reported''"
  by (simp add: py_join_def obind_def)

lemma summary_of_fields:
  assumes "summary_of s = Inr row"
  shows "\<exists>proto ident design status sponsor phase reported.
      dict_get s ''protocolSection'' (JObj []) = Inr proto
    \<and> dict_get proto ''identificationModule'' (JObj []) = Inr ident
    \<and> dict_get proto ''designModule'' (JObj []) = Inr design
    \<and> dict_get proto ''statusModule'' (JObj []) = Inr status
    \<and> dict_get proto ''sponsorCollaboratorsModule'' (JObj []) = Inr sponsor
    \<and> dict_get ident ''nctId'' JNull = Inr (NCT_ID row)
    \<and> title_of ident = Inr (Title row)
    \<and> phases_of design = Inr phase
    \<and> py_join '', '' phase = Inr (Phase row)
    \<and> dict_get status ''overallStatus'' JNull = Inr reported
    \<and> Status row = py_or reported (JStr ''Unknown'')
    \<and> sponsor_name_of sponsor = Inr (Sponsor row)"
  using assms unfolding summary_of_def obind_eq_Inr by force

lemma detail_of_fields:
  assumes "detail_of data = Inr detail"
  shows "\<exists>proto ident design status sponsor phase.
      dict_get data ''protocolSection'' (JObj []) = Inr proto
    \<and> dict_get proto ''identificationModule'' (JObj []) = Inr ident
    \<and> dict_get proto ''designModule'' (JObj []) = Inr design
    \<and> dict_get proto ''statusModule'' (JObj []) = Inr status
    \<and> dict_get proto ''sponsorCollaboratorsModule'' (JObj []) = Inr sponsor
    \<and> title_of ident = Inr (det_Title detail)
    \<and> phases_of design = Inr phase
    \<and> py_join '', '' phase = Inr (det_Phase detail)
    \<and> dict_get status ''overallStatus'' (JStr ''Unknown'') = Inr (det_Status detail)
    \<and> sponsor_name_of sponsor = Inr (det_Sponsor detail)"
  using assms unfolding detail_of_def obind_eq_Inr by force

section \<open>The normalizers return on every object of the registry's types\<close>

lemma field_ok_get:
  assumes "field_ok P obj k" and "P d"
  shows "\<exists>v. dict_get obj k d = Inr v \<and> P v"
  using assms by (cases obj) (auto simp: field_ok_def split: option.splits)

lemma field_ok_get_any:
  assumes "field_ok P obj k"
  shows "\<exists>v. dict_get obj k d = Inr v"
  using assms by (cases obj) (auto simp: field_ok_def)

lemma is_obj_get: "is_obj obj \<Longrightarrow> \<exists>v. dict_get obj k d = Inr v"
  by (cases obj) auto

lemma is_list_of_iter:
  "is_list_of P v \<Longrightarrow> \<exists>xs. py_iter v = Inr xs \<and> list_all P xs"
  by (cases v) auto

lemma for_each_total:
  assumes "\<And>st x. x \<in> set xs \<Longrightarrow> \<exists>st'. body st x = Inr st'"
  shows "\<exists>st'. for_each body xs st = Inr st'"
  using assms
proof (induction xs arbitrary: st)
  case Nil
  show ?case by simp
next
  case (Cons x xs)
  from Cons.prems [of x st] obtain st1 where "body st x = Inr st1" by auto
  moreover from Cons.IH [of st1] Cons.prems obtain st2 where "for_each body xs st1 = Inr st2"
    by auto
  ultimately show ?case by (simp add: obind_Inr)
qed

lemma py_strip_str: "is_str v \<Longrightarrow> \<exists>n. py_strip v = Inr n"
  by (cases v) auto

lemma add_intervention_total:
  assumes "intervention_ok item"
  shows "\<exists>vs. add_intervention vaccines item = Inr vs"
proof -
  from assms obtain kvs where item: "item = JObj kvs" 
    by (cases item) (auto simp: intervention_ok_def field_ok_def)
  show ?thesis
  proof (cases "map_of kvs ''name''")
    case None
    with item show ?thesis by (simp add: add_intervention_def obind_def)
  next
    case (Some name)
    with assms item have "is_str name" by (simp add: intervention_ok_def field_ok_def)
    then obtain n where "name = JStr n" by (cases name) auto
    with Some item show ?thesis by (simp add: add_intervention_def obind_def)
  qed
qed

lemma add_arm_total:
  assumes "arm_group_ok arm"
  shows "\<exists>vs. add_arm vaccines arm = Inr vs"
proof -
  have "is_list_of is_str (JArr [])" by simp
  with field_ok_get [of "is_list_of is_str" arm "''interventionNames''" "JArr []"] assms
  obtain names where names: "dict_get arm ''interventionNames'' (JArr []) = Inr names"
    and ok: "is_list_of is_str names" by (auto simp: arm_group_ok_def)
  from is_list_of_iter [OF ok] obtain ns where ns: "py_iter names = Inr ns" "list_all is_str ns"
    by blast
  have "\<exists>vs. for_each add_arm_name ns vaccines = Inr vs"
  proof (rule for_each_total)
    fix st x assume "x \<in> set ns"
    with ns(2) have "is_str x" by (simp add: list_all_iff)
    then obtain n where "py_strip x = Inr n" using py_strip_str by blast
    then show "\<exists>st'. add_arm_name st x = Inr st'" by (simp add: add_arm_name_def obind_Inr)
  qed
  with names ns(1) show ?thesis by (simp add: add_arm_def obind_Inr)
qed

lemma extract_vaccines_total:
  assumes "arms_ok arms"
  shows "\<exists>vs. extract_vaccines arms = Inr vs"
proof -
  have e: "is_list_of intervention_ok (JArr [])" "is_list_of arm_group_ok (JArr [])" by simp_all
  from assms field_ok_get [where P = "is_list_of intervention_ok" and d = "JArr []"] e(1)
  obtain interventions where
    i: "dict_get arms ''interventions'' (JArr []) = Inr interventions"
      "is_list_of intervention_ok interventions"
    unfolding arms_ok_def by blast
  from is_list_of_iter [OF i(2)] obtain items where
    items: "py_iter interventions = Inr items" "list_all intervention_ok items" by blast
  have "\<exists>vs. for_each add_intervention items [] = Inr vs"
  proof (rule for_each_total)
    fix st x assume "x \<in> set items"
    with items(2) have "intervention_ok x" by (simp add: list_all_iff)
    then show "\<exists>st'. add_intervention st x = Inr st'" by (rule add_intervention_total)
  qed
  then obtain v1 where v1: "for_each add_intervention items [] = Inr v1" by blast
  from assms field_ok_get [where P = "is_list_of arm_group_ok" and d = "JArr []"] e(2)
  obtain arm_groups where
    g: "dict_get arms ''armGroups'' (JArr []) = Inr arm_groups"
      "is_list_of arm_group_ok arm_groups"
    unfolding arms_ok_def by blast
  from is_list_of_iter [OF g(2)] obtain groups where
    groups: "py_iter arm_groups = Inr groups" "list_all arm_group_ok groups" by blast
  have "\<exists>vs. for_each add_arm groups v1 = Inr vs"
  proof (rule for_each_total)
    fix st x assume "x \<in> set groups"
    with groups(2) have "arm_group_ok x" by (simp add: list_all_iff)
    then show "\<exists>st'. add_arm st x = Inr st'" by (rule add_arm_total)
  qed
  with i(1) items(1) v1 g(1) groups(1) show ?thesis
    by (simp add: extract_vaccines_def obind_Inr)
qed

lemma title_of_total: "is_obj ident \<Longrightarrow> \<exists>t. title_of ident = Inr t"
  by (cases ident) (auto simp: title_of_def obind_def)

lemma sponsor_name_of_total:
  assumes "sponsor_ok sponsor"
  shows "\<exists>n. sponsor_name_of sponsor = Inr n"
proof -
  have "is_obj (JObj [])" by simp
  with assms field_ok_get [of is_obj sponsor "''leadSponsor''" "JObj []"]
  obtain lead where "dict_get sponsor ''leadSponsor'' (JObj []) = Inr lead" "is_obj lead"
    by (auto simp: sponsor_ok_def)
  with is_obj_get [of lead "''name''" "JStr ''Unknown''"] show ?thesis
    by (auto simp: sponsor_name_of_def obind_Inr)
qed

lemma as_strs_total: "list_all is_str xs \<Longrightarrow> \<exists>ss. as_strs xs = Inr ss"
proof (induction xs)
  case Nil
  show ?case by simp
next
  case (Cons x xs)
  then obtain s ss where "x = JStr s" "as_strs xs = Inr ss" by (cases x) auto
  then show ?case by (simp add: obind_Inr)
qed

lemma py_join_total: "is_list_of is_str v \<Longrightarrow> \<exists>s. py_join sep v = Inr s"
  using is_list_of_iter [of is_str v] as_strs_total by (fastforce simp: py_join_def obind_Inr)

lemma phases_of_total:
  assumes "design_ok design"
  shows "\<exists>phase. phases_of design = Inr phase \<and> is_list_of is_str phase"
proof -
  from assms obtain kvs where d: "design = JObj kvs"
    by (cases design) (auto simp: design_ok_def field_ok_def)
  show ?thesis
  proof (cases "map_of kvs ''phases''")
    case None
    with d show ?thesis by (simp add: phases_of_def obind_def py_or_def)
  next
    case (Some reported)
    with assms d have "is_list_of is_str reported" by (simp add: design_ok_def field_ok_def)
    with Some d show ?thesis by (simp add: phases_of_def obind_def py_or_def)
  qed
qed

lemma summary_of_total:
  assumes "study_ok s"
  shows "\<exists>row. summary_of s = Inr row"
proof -
  have p0: "proto_ok (JObj [])" by (simp add: proto_ok_def field_ok_def)
  from assms field_ok_get [where P = proto_ok and d = "JObj []"] p0 obtain proto where
    proto: "dict_get s ''protocolSection'' (JObj []) = Inr proto" "proto_ok proto"
    unfolding study_ok_def by blast
  have o0: "is_obj (JObj [])" by simp
  have d0: "design_ok (JObj [])" by (simp add: design_ok_def field_ok_def)
  have s0: "sponsor_ok (JObj [])" by (simp add: sponsor_ok_def field_ok_def)
  have a0: "arms_ok (JObj [])" by (simp add: arms_ok_def field_ok_def)
  from proto(2) field_ok_get [where P = is_obj and d = "JObj []"] o0 obtain ident where
    ident: "dict_get proto ''identificationModule'' (JObj []) = Inr ident" "is_obj ident"
    unfolding proto_ok_def by blast
  from proto(2) field_ok_get [where P = design_ok and d = "JObj []"] d0 obtain design where
    design: "dict_get proto ''designModule'' (JObj []) = Inr design" "design_ok design"
    unfolding proto_ok_def by blast
  from proto(2) field_ok_get [where P = is_obj and d = "JObj []"] o0 obtain status where
    status: "dict_get proto ''statusModule'' (JObj []) = Inr status" "is_obj status"
    unfolding proto_ok_def by blast
  from proto(2) field_ok_get [where P = sponsor_ok and d = "JObj []"] s0 obtain sponsor where
    sponsor: "dict_get proto ''sponsorCollaboratorsModule'' (JObj []) = Inr sponsor"
      "sponsor_ok sponsor"
    unfolding proto_ok_def by blast
  from proto(2) field_ok_get [where P = arms_ok and d = "JObj []"] a0 obtain arms where
    arms: "dict_get proto ''armsInterventionsModule'' (JObj []) = Inr arms" "arms_ok arms"
    unfolding proto_ok_def by blast
  from extract_vaccines_total [OF arms(2)] obtain vaccines where
    vaccines: "extract_vaccines arms = Inr vaccines" by blast
  from is_obj_get [OF ident(2)] obtain nct_id where
    nct: "dict_get ident ''nctId'' JNull = Inr nct_id" by blast
  from title_of_total [OF ident(2)] obtain title where title: "title_of ident = Inr title"
    by blast
  from phases_of_total [OF design(2)] obtain phase where
    phase: "phases_of design = Inr phase" "is_list_of is_str phase" by blast
  from is_obj_get [OF status(2)] obtain reported where
    reported: "dict_get status ''overallStatus'' JNull = Inr reported" by blast
  from sponsor_name_of_total [OF sponsor(2)] obtain name where
    name: "sponsor_name_of sponsor = Inr name" by blast
  from py_join_total [OF phase(2)] obtain column where
    column: "py_join '', '' phase = Inr column" by blast
  show ?thesis
    unfolding summary_of_def
    by (simp add: obind_Inr proto(1) ident(1) design(1) status(1) sponsor(1) arms(1) vaccines
        nct title phase(1) reported name column)
qed

lemmas normalizer_defs =
  summary_of_def detail_of_def obind_def extract_vaccines_def add_arm_def add_arm_name_def
  add_intervention_def title_of_def phases_of_def sponsor_name_of_def py_join_def
  vaccines_column_def vaccines_list_def outcomes_of_def add_outcome_def py_or_def strip_def
  py_isspace_def set_add_def sorted_strs_def

lemmas ok_defs =
  study_ok_def detail_ok_def proto_ok_def arms_ok_def design_ok_def sponsor_ok_def
  intervention_ok_def arm_group_ok_def results_ok_def page_ok_def field_ok_def

lemma sponsor_name_of_unreachable:
  assumes "sponsor_name_of sponsor = Inr name"
    and "field_at sponsor [''leadSponsor'', ''name''] = None"
  shows "name = JStr ''Unknown''"
proof -
  from assms(1) obtain lead where lead: "dict_get sponsor ''leadSponsor'' (JObj []) = Inr lead"
    and name: "dict_get lead ''name'' (JStr ''Unknown'') = Inr name"
    by (auto simp: sponsor_name_of_def obind_eq_Inr)
  from field_at_step_None [OF lead assms(2)] have "field_at lead [''name''] = None" .
  from field_at_leaf(1) [OF name this] show ?thesis .
qed

lemma add_outcome_total: "is_obj om \<Longrightarrow> \<exists>os. add_outcome outcomes om = Inr os"
  by (cases om) (auto simp: add_outcome_def obind_def)

lemma outcomes_of_total:
  assumes "results_ok results_section"
  shows "\<exists>os. outcomes_of results_section = Inr os"
proof (cases "truthy results_section")
  case False
  then show ?thesis by (simp add: outcomes_of_def)
next
  case True
  have m0: "field_ok (is_list_of is_obj) (JObj []) ''outcomeMeasures''" by (simp add: field_ok_def)
  from assms field_ok_get [where P = "\<lambda>m. field_ok (is_list_of is_obj) m ''outcomeMeasures''"
      and d = "JObj []"] m0
  obtain outcome_module where
    om: "dict_get results_section ''outcomeMeasuresModule'' (JObj []) = Inr outcome_module"
      "field_ok (is_list_of is_obj) outcome_module ''outcomeMeasures''"
    unfolding results_ok_def by blast
  have l0: "is_list_of is_obj (JArr [])" by simp
  from om(2) field_ok_get [where P = "is_list_of is_obj" and d = "JArr []"] l0
  obtain measures where
    ms: "dict_get outcome_module ''outcomeMeasures'' (JArr []) = Inr measures"
      "is_list_of is_obj measures" by blast
  from is_list_of_iter [OF ms(2)] obtain os where
    os: "py_iter measures = Inr os" "list_all is_obj os" by blast
  have "\<exists>res. for_each add_outcome os [] = Inr res"
  proof (rule for_each_total)
    fix st x assume "x \<in> set os"
    with os(2) have "is_obj x" by (simp add: list_all_iff)
    then show "\<exists>st'. add_outcome st x = Inr st'" by (rule add_outcome_total)
  qed
  with True om(1) ms(1) os(1) show ?thesis by (simp add: outcomes_of_def obind_Inr)
qed

lemma detail_of_total:
  assumes "detail_ok data"
  shows "\<exists>detail. detail_of data = Inr detail"
proof -
  have p0: "proto_ok (JObj [])" by (simp add: proto_ok_def field_ok_def)
  from assms field_ok_get [where P = proto_ok and d = "JObj []"] p0 obtain proto where
    proto: "dict_get data ''protocolSection'' (JObj []) = Inr proto" "proto_ok proto"
    unfolding detail_ok_def study_ok_def by blast
  have c0: "field_ok is_obj (JObj []) ''conditionsModule''" by (simp add: field_ok_def)
  from assms field_ok_get [where P = "\<lambda>proto. field_ok is_obj proto ''conditionsModule''"
      and d = "JObj []"] c0 proto(1)
  have cond_ok: "field_ok is_obj proto ''conditionsModule''"
    unfolding detail_ok_def by fastforce
  have r0: "results_ok (JObj [])" by (simp add: results_ok_def field_ok_def)
  from assms field_ok_get [where P = results_ok and d = "JObj []"] r0 obtain results_section
    where results: "dict_get data ''resultsSection'' (JObj []) = Inr results_section"
      "results_ok results_section"
    unfolding detail_ok_def by blast
  have o0: "is_obj (JObj [])" by simp
  have d0: "design_ok (JObj [])" by (simp add: design_ok_def field_ok_def)
  have s0: "sponsor_ok (JObj [])" by (simp add: sponsor_ok_def field_ok_def)
  have a0: "arms_ok (JObj [])" by (simp add: arms_ok_def field_ok_def)
  from proto(2) field_ok_get [where P = is_obj and d = "JObj []"] o0 obtain ident where
    ident: "dict_get proto ''identificationModule'' (JObj []) = Inr ident" "is_obj ident"
    unfolding proto_ok_def by blast
  from proto(2) field_ok_get [where P = design_ok and d = "JObj []"] d0 obtain design where
    design: "dict_get proto ''designModule'' (JObj []) = Inr design" "design_ok design"
    unfolding proto_ok_def by blast
  from proto(2) field_ok_get [where P = is_obj and d = "JObj []"] o0 obtain status where
    status: "dict_get proto ''statusModule'' (JObj []) = Inr status" "is_obj status"
    unfolding proto_ok_def by blast
  from proto(2) field_ok_get [where P = sponsor_ok and d = "JObj []"] s0 obtain sponsor where
    sponsor: "dict_get proto ''sponsorCollaboratorsModule'' (JObj []) = Inr sponsor"
      "sponsor_ok sponsor"
    unfolding proto_ok_def by blast
  from proto(2) field_ok_get [where P = arms_ok and d = "JObj []"] a0 obtain arms where
    arms: "dict_get proto ''armsInterventionsModule'' (JObj []) = Inr arms" "arms_ok arms"
    unfolding proto_ok_def by blast
  from cond_ok field_ok_get [where P = is_obj and d = "JObj []"] o0 obtain conditions where
    conditions: "dict_get proto ''conditionsModule'' (JObj []) = Inr conditions"
      "is_obj conditions" by blast
  from extract_vaccines_total [OF arms(2)] obtain vaccines where
    vaccines: "extract_vaccines arms = Inr vaccines" by blast
  from is_obj_get [OF conditions(2)] obtain disease_list where
    diseases: "dict_get conditions ''conditions'' (JArr []) = Inr disease_list" by blast
  from outcomes_of_total [OF results(2)] obtain outcomes where
    outcomes: "outcomes_of results_section = Inr outcomes" by blast
  from title_of_total [OF ident(2)] obtain title where title: "title_of ident = Inr title"
    by blast
  from phases_of_total [OF design(2)] obtain phase where
    phase: "phases_of design = Inr phase" "is_list_of is_str phase" by blast
  from is_obj_get [OF status(2)] obtain overall where
    overall: "dict_get status ''overallStatus'' (JStr ''Unknown'') = Inr overall" by blast
  from sponsor_name_of_total [OF sponsor(2)] obtain name where
    name: "sponsor_name_of sponsor = Inr name" by blast
  from py_join_total [OF phase(2)] obtain column where
    column: "py_join '', '' phase = Inr column" by blast
  show ?thesis
    unfolding detail_of_def
    by (simp add: obind_Inr proto(1) ident(1) design(1) status(1) sponsor(1) arms(1)
        conditions(1) results(1) vaccines diseases outcomes title phase(1) overall name column)
qed

lemma detail_ok_study_ok: "detail_ok data \<Longrightarrow> study_ok data"
  by (simp add: detail_ok_def)

lemma for_each_append_summary:
  "for_each append_summary studies all_results = Inr rs \<Longrightarrow>
     \<exists>rows. rs = all_results @ rows \<and> length rows = length studies"
proof (induction studies arbitrary: all_results)
  case Nil
  then show ?case by simp
next
  case (Cons s studies)
  from Cons.prems obtain mid where mid: "append_summary all_results s = Inr mid"
    and rest: "for_each append_summary studies mid = Inr rs"
    by (auto simp: obind_eq_Inr)
  from mid obtain row where "mid = all_results @ [row]"
    by (auto simp: append_summary_def obind_eq_Inr)
  moreover from Cons.IH [OF rest] obtain rows where "rs = mid @ rows" "length rows = length studies"
    by blast
  ultimately have "rs = all_results @ (row # rows) \<and> length (row # rows) = length (s # studies)"
    by simp
  then show ?case by blast
qed

lemma for_each_append_summary_total:
  assumes "list_all study_ok studies"
  shows "\<exists>rs. for_each append_summary studies all_results = Inr rs"
proof (rule for_each_total)
  fix st x assume "x \<in> set studies"
  with assms have "study_ok x" by (simp add: list_all_iff)
  from summary_of_total [OF this] show "\<exists>st'. append_summary st x = Inr st'"
    by (auto simp: append_summary_def obind_Inr)
qed

text \<open>The rows appended are the rows of the studies, in their order.\<close>

lemma for_each_append_summary_rows:
  "for_each append_summary studies all_results = Inr rs \<Longrightarrow>
     \<exists>rows. rs = all_results @ rows \<and> map summary_of studies = map Inr rows"
proof (induction studies arbitrary: all_results)
  case Nil
  then show ?case by simp
next
  case (Cons s studies)
  from Cons.prems obtain mid where mid: "append_summary all_results s = Inr mid"
    and rest: "for_each append_summary studies mid = Inr rs"
    by (auto simp: obind_eq_Inr)
  from mid obtain row where row: "summary_of s = Inr row" "mid = all_results @ [row]"
    by (auto simp: append_summary_def obind_eq_Inr)
  from Cons.IH [OF rest] obtain rows where rows: "rs = mid @ rows"
    "map summary_of studies = map Inr rows"
    by (elim exE conjE)
  from row rows have "rs = all_results @ (row # rows)
      \<and> map summary_of (s # studies) = map Inr (row # rows)"
    by simp
  then show ?case by (rule exI [where x = "row # rows"])
qed

lemma title_of_bare: "title_of (JObj []) = Inr (JStr ''No title'')"
  by (simp add: title_of_def obind_def py_or_def)

lemma summary_of_bare: "summary_of (JObj []) = Inr bare_row"
  by (simp add: normalizer_defs bare_row_def)

lemma study_ok_bare: "study_ok (JObj [])"
  by (simp add: ok_defs)

lemma agree_on_copied_fields:
  assumes row: "summary_of s = Inr row" and detail: "detail_of s = Inr detail"
  shows "Title row = det_Title detail" and "Sponsor row = det_Sponsor detail"
    and "Phase row = det_Phase detail"
proof -
  from summary_of_fields [OF row] obtain proto ident design sponsor phase where
    s: "dict_get s ''protocolSection'' (JObj []) = Inr proto"
      "dict_get proto ''identificationModule'' (JObj []) = Inr ident"
      "dict_get proto ''designModule'' (JObj []) = Inr design"
      "dict_get proto ''sponsorCollaboratorsModule'' (JObj []) = Inr sponsor"
      "title_of ident = Inr (Title row)"
      "phases_of design = Inr phase"
      "py_join '', '' phase = Inr (Phase row)"
      "sponsor_name_of sponsor = Inr (Sponsor row)"
    by (elim exE conjE)
  from detail_of_fields [OF detail] obtain proto' ident' design' sponsor' phase' where
    d: "dict_get s ''protocolSection'' (JObj []) = Inr proto'"
      "dict_get proto' ''identificationModule'' (JObj []) = Inr ident'"
      "dict_get proto' ''designModule'' (JObj []) = Inr design'"
      "dict_get proto' ''sponsorCollaboratorsModule'' (JObj []) = Inr sponsor'"
      "title_of ident' = Inr (det_Title detail)"
      "phases_of design' = Inr phase'"
      "py_join '', '' phase' = Inr (det_Phase detail)"
      "sponsor_name_of sponsor' = Inr (det_Sponsor detail)"
    by (elim exE conjE)
  from s(1) d(1) have p: "proto' = proto" by simp
  from s(2) d(2) p have i: "ident' = ident" by simp
  from s(3) d(3) p have g: "design' = design" by simp
  from s(4) d(4) p have n: "sponsor' = sponsor" by simp
  from s(5) d(5) i show "Title row = det_Title detail" by simp
  from s(8) d(8) n show "Sponsor row = det_Sponsor detail" by simp
  from s(6) d(6) g have "phase' = phase" by simp
  with s(7) d(7) show "Phase row = det_Phase detail" by simp
qed

lemma agree_on_reported_status:
  assumes row: "summary_of s = Inr row" and detail: "detail_of s = Inr detail"
    and reported: "case field_at s [''protocolSection'', ''statusModule'', ''overallStatus''] of
        None \<Rightarrow> True | Some v \<Rightarrow> truthy v"
  shows "Status row = det_Status detail"
proof -
  from summary_of_fields [OF row] obtain proto status v where
    s: "dict_get s ''protocolSection'' (JObj []) = Inr proto"
      "dict_get proto ''statusModule'' (JObj []) = Inr status"
      "dict_get status ''overallStatus'' JNull = Inr v"
      "Status row = py_or v (JStr ''Unknown'')"
    by (elim exE conjE)
  from detail_of_fields [OF detail] obtain proto' status' where
    d: "dict_get s ''protocolSection'' (JObj []) = Inr proto'"
      "dict_get proto' ''statusModule'' (JObj []) = Inr status'"
      "dict_get status' ''overallStatus'' (JStr ''Unknown'') = Inr (det_Status detail)"
    by (elim exE conjE)
  from s(1) d(1) have p: "proto' = proto" by simp
  from s(2) d(2) p have t: "status' = status" by simp
  show ?thesis
  proof (cases "field_at s [''protocolSection'', ''statusModule'', ''overallStatus'']")
    case None
    from field_at_step_None [OF s(1) None]
    have "field_at proto [''statusModule'', ''overallStatus''] = None" .
    from field_at_step_None [OF s(2) this] have n: "field_at status [''overallStatus''] = None" .
    from field_at_leaf(1) [OF s(3) n] have "v = JNull" .
    moreover from field_at_leaf(1) [OF d(3) [unfolded t] n]
    have "det_Status detail = JStr ''Unknown''" .
    ultimately show ?thesis using s(4) by (simp add: py_or_def)
  next
    case (Some x)
    with reported have x: "truthy x" by simp
    from field_at_step_Some [OF s(1) Some]
    have "field_at proto [''statusModule'', ''overallStatus''] = Some x" .
    from field_at_step_Some [OF s(2) this] have n: "field_at status [''overallStatus''] = Some x" .
    from field_at_leaf(2) [OF s(3) n] have "v = x" .
    moreover from field_at_leaf(2) [OF d(3) [unfolded t] n] have "det_Status detail = x" .
    ultimately show ?thesis using s(4) x by (simp add: py_or_def)
  qed
qed

section \<open>Facts about the loop of the paginated fetcher\<close>

lemma fetch_loop_stop:
  "\<not> int page_count < max_pages \<Longrightarrow>
     fetch_loop remote disease max_pages all_results page_token page_count = (Inr all_results, [])"
  by (subst fetch_loop.simps) simp

lemma fetch_loop_failed:
  "int page_count < max_pages \<Longrightarrow>
   remote page_count disease (token_param page_token) = Failed \<Longrightarrow>
     fetch_loop remote disease max_pages all_results page_token page_count =
       (Inl RequestException, [Request disease (token_param page_token)])"
  by (subst fetch_loop.simps) simp

lemma fetch_loop_raised:
  "int page_count < max_pages \<Longrightarrow>
   remote page_count disease (token_param page_token) = Body data \<Longrightarrow>
   read_page data all_results = Inl e \<Longrightarrow>
     fetch_loop remote disease max_pages all_results page_token page_count =
       (Inl e, [Request disease (token_param page_token)])"
  by (subst fetch_loop.simps) simp

lemma fetch_loop_no_studies:
  "int page_count < max_pages \<Longrightarrow>
   remote page_count disease (token_param page_token) = Body data \<Longrightarrow>
   read_page data all_results = Inr No_studies \<Longrightarrow>
     fetch_loop remote disease max_pages all_results page_token page_count =
       (Inr all_results, [Request disease (token_param page_token)])"
  by (subst fetch_loop.simps) simp

lemma fetch_loop_no_token:
  "int page_count < max_pages \<Longrightarrow>
   remote page_count disease (token_param page_token) = Body data \<Longrightarrow>
   read_page data all_results = Inr (Page_done all_results' next_token) \<Longrightarrow>
   \<not> truthy next_token \<Longrightarrow>
     fetch_loop remote disease max_pages all_results page_token page_count =
       (Inr all_results', [Request disease (token_param page_token)])"
  by (subst fetch_loop.simps) simp

lemma fetch_loop_next:
  "int page_count < max_pages \<Longrightarrow>
   remote page_count disease (token_param page_token) = Body data \<Longrightarrow>
   read_page data all_results = Inr (Page_done all_results' next_token) \<Longrightarrow>
   truthy next_token \<Longrightarrow>
     fetch_loop remote disease max_pages all_results page_token page_count =
       (fst (fetch_loop remote disease max_pages all_results' next_token (Suc page_count)),
        Request disease (token_param page_token) # Sleep #
        snd (fetch_loop remote disease max_pages all_results' next_token (Suc page_count)))"
  by (subst fetch_loop.simps) (simp split: prod.splits)

text \<open>What one iteration of the loop can be.\<close>

lemma fetch_loop_cases:
  obtains
    (stop) "\<not> int page_count < max_pages"
      "fetch_loop remote disease max_pages all_results page_token page_count = (Inr all_results, [])"
  | (failed) "int page_count < max_pages"
      "remote page_count disease (token_param page_token) = Failed"
      "fetch_loop remote disease max_pages all_results page_token page_count =
         (Inl RequestException, [Request disease (token_param page_token)])"
  | (raised) data e where "int page_count < max_pages"
      "remote page_count disease (token_param page_token) = Body data"
      "read_page data all_results = Inl e"
      "fetch_loop remote disease max_pages all_results page_token page_count =
         (Inl e, [Request disease (token_param page_token)])"
  | (no_studies) data where "int page_count < max_pages"
      "remote page_count disease (token_param page_token) = Body data"
      "read_page data all_results = Inr No_studies"
      "fetch_loop remote disease max_pages all_results page_token page_count =
         (Inr all_results, [Request disease (token_param page_token)])"
  | (no_token) data all_results' next_token where "int page_count < max_pages"
      "remote page_count disease (token_param page_token) = Body data"
      "read_page data all_results = Inr (Page_done all_results' next_token)"
      "\<not> truthy next_token"
      "fetch_loop remote disease max_pages all_results page_token page_count =
         (Inr all_results', [Request disease (token_param page_token)])"
  | (next_page) data all_results' next_token where "int page_count < max_pages"
      "remote page_count disease (token_param page_token) = Body data"
      "read_page data all_results = Inr (Page_done all_results' next_token)"
      "truthy next_token"
      "fetch_loop remote disease max_pages all_results page_token page_count =
         (fst (fetch_loop remote disease max_pages all_results' next_token (Suc page_count)),
          Request disease (token_param page_token) # Sleep #
          snd (fetch_loop remote disease max_pages all_results' next_token (Suc page_count)))"
proof (cases "int page_count < max_pages")
  case False
  then have "fetch_loop remote disease max_pages all_results page_token page_count =
      (Inr all_results, [])" by (simp add: fetch_loop_stop)
  with False show ?thesis by (rule stop)
next
  case lt: True
  show ?thesis
  proof (cases "remote page_count disease (token_param page_token)")
    case Failed
    with lt have "fetch_loop remote disease max_pages all_results page_token page_count =
        (Inl RequestException, [Request disease (token_param page_token)])"
      by (simp add: fetch_loop_failed)
    with lt Failed show ?thesis by (rule failed)
  next
    case (Body data)
    show ?thesis
    proof (cases "read_page data all_results")
      case (Inl e)
      with lt Body have "fetch_loop remote disease max_pages all_results page_token page_count =
          (Inl e, [Request disease (token_param page_token)])"
        by (simp add: fetch_loop_raised)
      with lt Body Inl show ?thesis by (rule raised)
    next
      case (Inr step)
      show ?thesis
      proof (cases step)
        case No_studies
        with Inr have r: "read_page data all_results = Inr No_studies" by simp
        with lt Body have "fetch_loop remote disease max_pages all_results page_token page_count =
            (Inr all_results, [Request disease (token_param page_token)])"
          by (simp add: fetch_loop_no_studies)
        with lt Body r show ?thesis by (rule no_studies)
      next
        case (Page_done all_results' next_token)
        with Inr have r: "read_page data all_results = Inr (Page_done all_results' next_token)"
          by simp
        show ?thesis
        proof (cases "truthy next_token")
          case True
          with lt Body r
          have "fetch_loop remote disease max_pages all_results page_token page_count =
             (fst (fetch_loop remote disease max_pages all_results' next_token (Suc page_count)),
              Request disease (token_param page_token) # Sleep #
              snd (fetch_loop remote disease max_pages all_results' next_token (Suc page_count)))"
            by (simp add: fetch_loop_next)
          with lt Body r True show ?thesis by (rule next_page)
        next
          case False
          with lt Body r
          have "fetch_loop remote disease max_pages all_results page_token page_count =
              (Inr all_results', [Request disease (token_param page_token)])"
            by (simp add: fetch_loop_no_token)
          with lt Body r False show ?thesis by (rule no_token)
        qed
      qed
    qed
  qed
qed

lemma read_page_continues:
  assumes "page_continues data"
  shows "\<exists>rows next_token. read_page data all_results = Inr (Page_done (all_results @ rows) next_token)
     \<and> truthy next_token"
proof -
  from assms obtain kvs where data: "data = JObj kvs"
    by (cases data) (auto simp: page_continues_def page_ok_def field_ok_def)
  from assms data obtain studies where studies: "map_of kvs ''studies'' = Some studies"
    "truthy studies" "is_list_of study_ok studies"
    by (auto simp: page_continues_def page_ok_def field_ok_def split: option.splits)
  from assms data obtain next_token where tok: "map_of kvs ''nextPageToken'' = Some next_token"
    "truthy next_token"
    by (auto simp: page_continues_def split: option.splits)
  from studies(3) obtain ss where ss: "studies = JArr ss" "list_all study_ok ss"
    by (cases studies) auto
  from for_each_append_summary_total [OF ss(2)] obtain rs where
    rs: "for_each append_summary ss all_results = Inr rs" by (rule exE)
  from for_each_append_summary [OF rs] obtain rows where rows: "rs = all_results @ rows"
    by (elim exE conjE)
  from data studies(1,2) tok(1) ss(1) rs rows
  have "read_page data all_results = Inr (Page_done (all_results @ rows) next_token)"
    by (simp add: read_page_def obind_def)
  with tok(2) show ?thesis by (intro exI [where x = rows] exI [where x = next_token] conjI)
qed

lemma read_page_empty:
  assumes "page_empty data"
  shows "read_page data all_results = Inr No_studies"
proof -
  from assms obtain kvs where data: "data = JObj kvs"
    by (cases data) (auto simp: page_empty_def)
  with assms show ?thesis
    by (auto simp: page_empty_def read_page_def obind_def split: option.splits)
qed

lemma requests_simps:
  "requests [] = []"
  "requests (Request disease sent # events) = Request disease sent # requests events"
  "requests (Sleep # events) = requests events"
  "requests (Error_shown # events) = requests events"
  "requests (events @ later) = requests events @ requests later"
  by (simp_all add: requests_def)

lemma sleeps_simps:
  "sleeps [] = 0"
  "sleeps (Request disease sent # events) = sleeps events"
  "sleeps (Sleep # events) = Suc (sleeps events)"
  "sleeps (Error_shown # events) = sleeps events"
  "sleeps (events @ later) = sleeps events + sleeps later"
  by (simp_all add: sleeps_def)

lemma paced_sleeps_le: "paced events \<Longrightarrow> sleeps events \<le> length (requests events)"
  by (induction events rule: paced.induct) (simp_all add: requests_simps sleeps_simps)

lemma paced_sleep_follows_request:
  "paced events \<Longrightarrow> i < length events \<Longrightarrow> events ! i = Sleep \<Longrightarrow>
     0 < i \<and> is_request (events ! (i - 1))"
proof (induction events arbitrary: i rule: paced.induct)
  case (3 disease sent events)
  show ?case
  proof (cases i)
    case 0
    with "3.prems" show ?thesis by simp
  next
    case (Suc j)
    show ?thesis
    proof (cases j)
      case 0
      with Suc show ?thesis by simp
    next
      case (Suc k)
      with \<open>i = Suc j\<close> "3.prems" have "paced events" "k < length events" "events ! k = Sleep"
        by simp_all
      from "3.IH" [OF this] have "0 < k" "is_request (events ! (k - 1))" by simp_all
      with Suc \<open>i = Suc j\<close> show ?thesis by (cases k) simp_all
    qed
  qed
qed simp_all

lemma paced_requests_nonempty: "paced events \<Longrightarrow> events \<noteq> [] \<Longrightarrow> requests events \<noteq> []"
  by (induction events rule: paced.induct) (simp_all add: requests_simps)

lemma fetch_loop_paced:
  "paced (snd (fetch_loop remote disease max_pages all_results page_token page_count))"
proof (induction remote disease max_pages all_results page_token page_count
    rule: fetch_loop.induct)
  case (1 remote disease max_pages all_results page_token page_count)
  show ?case
  proof (cases rule: fetch_loop_cases [of page_count max_pages remote disease all_results page_token])
    case (next_page data all_results' next_token)
    from next_page(4) have "\<not> \<not> truthy next_token" by simp
    from "1.IH" [OF next_page(1,2,3) refl this] next_page(5) show ?thesis by simp
  qed simp_all
qed


lemma fetch_loop_no_trailing_sleep:
  assumes "events = snd (fetch_loop remote disease max_pages all_results page_token page_count)"
    and "int page_count + int (length (requests events)) < max_pages"
    and "events \<noteq> []"
  shows "Suc (sleeps events) = length (requests events) \<and> last events \<noteq> Sleep"
  using assms
proof (induction remote disease max_pages all_results page_token page_count arbitrary: events
    rule: fetch_loop.induct)
  case (1 remote disease max_pages all_results page_token page_count)
  show ?case
  proof (cases rule: fetch_loop_cases [of page_count max_pages remote disease all_results page_token])
    case (next_page data all_results' next_token)
    let ?rest = "snd (fetch_loop remote disease max_pages all_results' next_token (Suc page_count))"
    from next_page(5) "1.prems"(1)
    have ev: "events = Request disease (token_param page_token) # Sleep # ?rest" by simp
    with "1.prems"(2) have less: "int (Suc page_count) + int (length (requests ?rest)) < max_pages"
      by (simp add: requests_simps)
    have "?rest \<noteq> []"
    proof
      assume empty: "?rest = []"
      with less have "int (Suc page_count) < max_pages" by (simp add: requests_simps)
      then obtain "\<not> \<not> int (Suc page_count) < max_pages" by simp
      show False
      proof (cases rule: fetch_loop_cases [of "Suc page_count" max_pages remote disease all_results' next_token])
        case stop
        with \<open>int (Suc page_count) < max_pages\<close> show ?thesis by simp
      qed (use empty in simp_all)
    qed
    from next_page(4) have "\<not> \<not> truthy next_token" by simp
    from "1.IH" [OF next_page(1,2,3) refl this refl less \<open>?rest \<noteq> []\<close>] ev
      \<open>?rest \<noteq> []\<close>
    show ?thesis by (simp add: requests_simps sleeps_simps)
  qed (use "1.prems" in \<open>simp_all add: requests_simps sleeps_simps\<close>)
qed

lemma fetch_loop_failed_request:
  assumes "events = snd (fetch_loop remote disease max_pages all_results page_token page_count)"
    and "i < length (requests events)"
    and "requests events ! i = Request disease' sent"
    and "remote (page_count + i) disease' sent = Failed"
  shows "fst (fetch_loop remote disease max_pages all_results page_token page_count) =
      Inl RequestException"
  using assms
proof (induction remote disease max_pages all_results page_token page_count arbitrary: events i
    rule: fetch_loop.induct)
  case (1 remote disease max_pages all_results page_token page_count)
  show ?case
  proof (cases rule: fetch_loop_cases [of page_count max_pages remote disease all_results page_token])
    case (next_page data all_results' next_token)
    let ?rest = "snd (fetch_loop remote disease max_pages all_results' next_token (Suc page_count))"
    from next_page(5) "1.prems"(1)
    have ev: "requests events = Request disease (token_param page_token) # requests ?rest"
      by (simp add: requests_simps)
    show ?thesis
    proof (cases i)
      case 0
      with ev "1.prems"(3,4) next_page(2) show ?thesis by simp
    next
      case (Suc j)
      with ev "1.prems"(2,3,4) have j: "j < length (requests ?rest)"
        "requests ?rest ! j = Request disease' sent"
        "remote (Suc page_count + j) disease' sent = Failed" by simp_all
      from next_page(4) have "\<not> \<not> truthy next_token" by simp
      from "1.IH" [OF next_page(1,2,3) refl this refl j] next_page(5) show ?thesis by simp
    qed
  qed (use "1.prems" in \<open>auto simp: requests_simps\<close>)
qed

lemma fetch_loop_endless:
  assumes "\<forall>n sent. \<exists>data. remote n disease sent = Body data \<and> page_continues data"
  shows "length (requests (snd (fetch_loop remote disease max_pages all_results page_token
        page_count))) = nat (max_pages - int page_count)
     \<and> (\<exists>rows. fst (fetch_loop remote disease max_pages all_results page_token page_count) =
          Inr (all_results @ rows))"
  using assms
proof (induction remote disease max_pages all_results page_token page_count
    rule: fetch_loop.induct)
  case (1 remote disease max_pages all_results page_token page_count)
  from "1.prems" obtain data where data: "remote page_count disease (token_param page_token) = Body data"
    "page_continues data" by blast
  from read_page_continues [OF data(2)] obtain rows next_token where
    page: "read_page data all_results = Inr (Page_done (all_results @ rows) next_token)"
      "truthy next_token" by blast
  show ?case
  proof (cases "int page_count < max_pages")
    case False
    then show ?thesis by (simp add: fetch_loop_stop requests_simps)
  next
    case True
    from page(2) have "\<not> \<not> truthy next_token" by simp
    from "1.IH" [OF True data(1) page(1) refl this "1.prems"]
    obtain more_rows where
      n: "length (requests (snd (fetch_loop remote disease max_pages (all_results @ rows)
            next_token (Suc page_count)))) = nat (max_pages - int (Suc page_count))"
      and r: "fst (fetch_loop remote disease max_pages (all_results @ rows) next_token
            (Suc page_count)) = Inr ((all_results @ rows) @ more_rows)"
      by blast
    have eq: "fetch_loop remote disease max_pages all_results page_token page_count =
       (fst (fetch_loop remote disease max_pages (all_results @ rows) next_token (Suc page_count)),
        Request disease (token_param page_token) # Sleep #
        snd (fetch_loop remote disease max_pages (all_results @ rows) next_token (Suc page_count)))"
      using True data(1) page by (simp add: fetch_loop_next)
    from eq n True have "length (requests (snd (fetch_loop remote disease max_pages all_results
        page_token page_count))) = nat (max_pages - int page_count)"
      by (simp add: requests_simps)
    moreover from eq r have "fst (fetch_loop remote disease max_pages all_results page_token
        page_count) = Inr (all_results @ (rows @ more_rows))" by simp
    ultimately show ?thesis by blast
  qed
qed


lemma read_page_token_page: "read_page token_page rows = Inr (Page_done (rows @ [bare_row]) (JStr ''next''))"
  by (simp add: token_page_def read_page_def obind_def append_summary_def summary_of_bare)

lemma fetch_loop_raised_ends:
  "fst (fetch_loop remote disease max_pages all_results page_token page_count) = Inl e \<Longrightarrow>
     snd (fetch_loop remote disease max_pages all_results page_token page_count) \<noteq> []
     \<and> last (snd (fetch_loop remote disease max_pages all_results page_token page_count)) \<noteq> Sleep"
proof (induction remote disease max_pages all_results page_token page_count
    rule: fetch_loop.induct)
  case (1 remote disease max_pages all_results page_token page_count)
  show ?case
  proof (cases rule: fetch_loop_cases [of page_count max_pages remote disease all_results page_token])
    case (next_page data all_results' next_token)
    from next_page(4) have "\<not> \<not> truthy next_token" by simp
    from "1.IH" [OF next_page(1,2,3) refl this] "1.prems" next_page(5) show ?thesis by simp
  qed (use "1.prems" in simp_all)
qed

lemma paced_sleep_precedes_request:
  "paced events \<Longrightarrow> Suc i < length events \<Longrightarrow> events ! i = Sleep \<Longrightarrow>
     is_request (events ! Suc i)"
proof (induction events arbitrary: i rule: paced.induct)
  case (3 disease sent events)
  show ?case
  proof (cases i)
    case 0
    with "3.prems" show ?thesis by simp
  next
    case (Suc j)
    show ?thesis
    proof (cases j)
      case 0
      with Suc "3.prems" show ?thesis by (cases events rule: paced.cases) simp_all
    next
      case (Suc k)
      with \<open>i = Suc j\<close> "3.prems" have "paced events" "Suc k < length events" "events ! k = Sleep"
        by simp_all
      from "3.IH" [OF this] Suc \<open>i = Suc j\<close> show ?thesis by simp
    qed
  qed
qed simp_all

text \<open>The events of a whole run.\<close>

lemma fetch_all_events:
  "snd (fetch_all_vaccine_trials remote disease max_pages) =
     snd (fetch_loop remote disease max_pages [] JNull 0) @
     (if fst (fetch_loop remote disease max_pages [] JNull 0) = Inl RequestException
      then [Error_shown] else [])"
  by (simp add: fetch_all_vaccine_trials_def split: prod.splits)

lemma fetch_all_outcome:
  "fst (fetch_all_vaccine_trials remote disease max_pages) =
     (if fst (fetch_loop remote disease max_pages [] JNull 0) = Inl RequestException
      then Inr [] else fst (fetch_loop remote disease max_pages [] JNull 0))"
  by (simp add: fetch_all_vaccine_trials_def split: prod.splits)

lemma fetch_all_requests:
  "requests (snd (fetch_all_vaccine_trials remote disease max_pages)) =
     requests (snd (fetch_loop remote disease max_pages [] JNull 0))"
  by (simp add: fetch_all_events requests_simps)

lemma fetch_all_sleeps:
  "sleeps (snd (fetch_all_vaccine_trials remote disease max_pages)) =
     sleeps (snd (fetch_loop remote disease max_pages [] JNull 0))"
  by (simp add: fetch_all_events sleeps_simps)

lemma read_page_continues_count:
  assumes "page_continues data" and "field_at data [''studies''] = Some (JArr ss)"
  shows "\<exists>rows next_token. read_page data all_results = Inr (Page_done (all_results @ rows) next_token)
     \<and> truthy next_token \<and> length rows = length ss"
proof -
  from assms obtain kvs where data: "data = JObj kvs"
    by (cases data) (auto simp: page_continues_def page_ok_def field_ok_def)
  from assms data have studies: "map_of kvs ''studies'' = Some (JArr ss)" "ss \<noteq> []"
    "list_all study_ok ss"
    by (auto simp: page_continues_def page_ok_def field_ok_def split: option.splits)
  from assms data obtain next_token where tok: "map_of kvs ''nextPageToken'' = Some next_token"
    "truthy next_token"
    by (auto simp: page_continues_def split: option.splits)
  from for_each_append_summary_total [OF studies(3)] obtain rs where
    rs: "for_each append_summary ss all_results = Inr rs" by (rule exE)
  from for_each_append_summary [OF rs] obtain rows where rows: "rs = all_results @ rows"
    "length rows = length ss" by (elim exE conjE)
  from data studies(1,2) tok(1) rs rows(1)
  have "read_page data all_results = Inr (Page_done (all_results @ rows) next_token)"
    by (simp add: read_page_def obind_def)
  with tok(2) rows(2) show ?thesis
    by (intro exI [where x = rows] exI [where x = next_token] conjI)
qed

lemma three_page_run:
  assumes p1: "\<forall>sent. remote 0 disease sent = Body page1" "page_continues page1"
      "field_at page1 [''studies''] = Some (JArr studies1)"
    and p2: "\<forall>sent. remote 1 disease sent = Body page2" "page_continues page2"
      "field_at page2 [''studies''] = Some (JArr studies2)"
    and p3: "\<forall>sent. remote 2 disease sent = Body page3" "page_empty page3"
    and cap: "3 \<le> max_pages"
  shows "\<exists>rows t1 t2. fetch_loop remote disease max_pages [] JNull 0 =
      (Inr rows, [Request disease None, Sleep, Request disease (Some t1), Sleep,
                  Request disease (Some t2)])
     \<and> length rows = length studies1 + length studies2"
proof -
  from read_page_continues_count [OF p1(2,3), of "[]"] obtain rows1 t1 where
    r1: "read_page page1 [] = Inr (Page_done rows1 t1)" "truthy t1" "length rows1 = length studies1"
    by auto
  from read_page_continues_count [OF p2(2,3), of rows1] obtain rows2 t2 where
    r2: "read_page page2 rows1 = Inr (Page_done (rows1 @ rows2) t2)" "truthy t2"
      "length rows2 = length studies2"
    by auto
  have r3: "read_page page3 (rows1 @ rows2) = Inr No_studies" by (rule read_page_empty [OF p3(2)])
  from cap p3(1) r3 r2(2)
  have l3: "fetch_loop remote disease max_pages (rows1 @ rows2) t2 (Suc (Suc 0)) =
      (Inr (rows1 @ rows2), [Request disease (Some t2)])"
    by (simp add: fetch_loop_no_studies [where data = page3] token_param_def numeral_2_eq_2)
  from cap p2(1) r2 r1(2) l3
  have l2: "fetch_loop remote disease max_pages rows1 t1 (Suc 0) =
      (Inr (rows1 @ rows2), [Request disease (Some t1), Sleep, Request disease (Some t2)])"
    by (simp add: fetch_loop_next [where data = page2 and all_results' = "rows1 @ rows2"
          and next_token = t2] token_param_def)
  from cap p1(1) r1 l2
  have "fetch_loop remote disease max_pages [] JNull 0 =
      (Inr (rows1 @ rows2), [Request disease None, Sleep, Request disease (Some t1), Sleep,
                  Request disease (Some t2)])"
    by (simp add: fetch_loop_next [where data = page1 and all_results' = rows1
          and next_token = t1] token_param_def)
  with r1(3) r2(3) show ?thesis by auto
qed

lemma page_continues_full_page: "page_continues (full_page token) \<longleftrightarrow> token \<noteq> []"
  by (simp add: page_continues_def page_ok_def field_ok_def full_page_def list_all_iff
      study_ok_bare)

lemma page_continues_token_page: "page_continues token_page"
  by (simp add: page_continues_def page_ok_def field_ok_def token_page_def study_ok_bare)

lemma page_empty_empty_page: "page_empty empty_page"
  by (simp add: page_empty_def empty_page_def)

lemma failing_run:
  "fetch_all_vaccine_trials failing_registry (JStr ''RSV'') 10 =
     (Inr [], [Request (JStr ''RSV'') None, Sleep, Request (JStr ''RSV'') (Some (JStr ''next'')),
               Error_shown])"
proof -
  have two: "fetch_loop failing_registry (JStr ''RSV'') 10 [bare_row] (JStr ''next'') (Suc 0) =
      (Inl RequestException, [Request (JStr ''RSV'') (Some (JStr ''next''))])"
    by (simp add: fetch_loop_failed failing_registry_def token_param_def)
  have "fetch_loop failing_registry (JStr ''RSV'') 10 [] JNull 0 =
      (Inl RequestException,
       [Request (JStr ''RSV'') None, Sleep, Request (JStr ''RSV'') (Some (JStr ''next''))])"
    using fetch_loop_next [of 0 10 failing_registry "JStr ''RSV''" JNull token_page "[]"
        "[bare_row]" "JStr ''next''"] two
    by (simp add: failing_registry_def read_page_token_page token_param_def)
  then show ?thesis by (simp add: fetch_all_vaccine_trials_def)
qed

lemma fetch_loop_endless_sleeps:
  assumes "\<forall>n sent. \<exists>data. remote n disease sent = Body data \<and> page_continues data"
  shows "sleeps (snd (fetch_loop remote disease max_pages all_results page_token page_count))
      = length (requests (snd (fetch_loop remote disease max_pages all_results page_token
          page_count)))
     \<and> (int page_count < max_pages \<longrightarrow>
          last (snd (fetch_loop remote disease max_pages all_results page_token page_count))
            = Sleep)"
  using assms
proof (induction remote disease max_pages all_results page_token page_count
    rule: fetch_loop.induct)
  case (1 remote disease max_pages all_results page_token page_count)
  from "1.prems" obtain data where data: "remote page_count disease (token_param page_token) = Body data"
    "page_continues data" by blast
  from read_page_continues [OF data(2)] obtain rows next_token where
    page: "read_page data all_results = Inr (Page_done (all_results @ rows) next_token)"
      "truthy next_token" by blast
  show ?case
  proof (cases "int page_count < max_pages")
    case False
    then show ?thesis by (simp add: fetch_loop_stop requests_simps sleeps_simps)
  next
    case True
    let ?rest = "snd (fetch_loop remote disease max_pages (all_results @ rows) next_token
        (Suc page_count))"
    from page(2) have "\<not> \<not> truthy next_token" by simp
    from "1.IH" [OF True data(1) page(1) refl this "1.prems"]
    have n: "sleeps ?rest = length (requests ?rest)"
      and l: "int (Suc page_count) < max_pages \<longrightarrow> last ?rest = Sleep" by simp_all
    have eq: "snd (fetch_loop remote disease max_pages all_results page_token page_count) =
        Request disease (token_param page_token) # Sleep # ?rest"
      using True data(1) page by (simp add: fetch_loop_next)
    have "last (Request disease (token_param page_token) # Sleep # ?rest) = Sleep"
    proof (cases "int (Suc page_count) < max_pages")
      case True
      with l have "last ?rest = Sleep" by simp
      moreover have "?rest \<noteq> []"
      proof -
        from "1.prems" obtain data' where
          d': "remote (Suc page_count) disease (token_param next_token) = Body data'"
            "page_continues data'" by blast
        from read_page_continues [OF d'(2)] obtain rows' next' where
          "read_page data' (all_results @ rows) = Inr (Page_done ((all_results @ rows) @ rows') next')"
          "truthy next'" by blast
        with True d'(1) show ?thesis by (simp add: fetch_loop_next)
      qed
      ultimately show ?thesis by simp
    next
      case False
      then have "?rest = []" by (simp add: fetch_loop_stop)
      then show ?thesis by simp
    qed
    with eq n show ?thesis by (simp add: requests_simps sleeps_simps)
  qed
qed

text \<open>The rows of a page, and of the pages of a run.\<close>

lemma read_page_rows:
  assumes "read_page data all_results = Inr (Page_done rs next_token)"
  shows "\<exists>rows. rs = all_results @ rows \<and> map summary_of (studies_of data) = map Inr rows"
proof -
  from assms obtain studies ss where
    studies: "dict_get data ''studies'' (JArr []) = Inr studies" "truthy studies"
    and ss: "py_iter studies = Inr ss"
    and rs: "for_each append_summary ss all_results = Inr rs"
    by (auto simp: read_page_def obind_eq_Inr split: if_splits)
  from studies ss have "studies_of data = ss" by (simp add: studies_of_def)
  with for_each_append_summary_rows [OF rs] show ?thesis by simp
qed

lemma read_page_no_studies:
  assumes "read_page data all_results = Inr No_studies"
  shows "studies_of data = []"
  using assms by (auto simp: read_page_def studies_of_def obind_eq_Inr split: if_splits)

lemma truthy_iter: "truthy x \<Longrightarrow> py_iter x = Inr ss \<Longrightarrow> ss \<noteq> []"
  by (cases x) auto

lemma read_page_done_studies:
  assumes "read_page data all_results = Inr (Page_done rs next_token)"
  shows "studies_of data \<noteq> []"
proof -
  from assms obtain studies ss where
    studies: "dict_get data ''studies'' (JArr []) = Inr studies" "truthy studies"
    and ss: "py_iter studies = Inr ss"
    by (auto simp: read_page_def obind_eq_Inr split: if_splits)
  from studies ss have "studies_of data = ss" by (simp add: studies_of_def)
  with truthy_iter [OF studies(2) ss] show ?thesis by simp
qed

lemma read_page_total:
  assumes "page_ok data"
  shows "\<exists>step. read_page data all_results = Inr step"
proof -
  from assms obtain kvs where data: "data = JObj kvs"
    by (cases data) (auto simp: page_ok_def field_ok_def)
  show ?thesis
  proof (cases "map_of kvs ''studies''")
    case None
    with data show ?thesis by (simp add: read_page_def obind_def)
  next
    case (Some studies)
    with assms data have "is_list_of study_ok studies" by (simp add: page_ok_def field_ok_def)
    then obtain ss where ss: "studies = JArr ss" "list_all study_ok ss" by (cases studies) auto
    from for_each_append_summary_total [OF ss(2)] obtain rs where
      rs: "for_each append_summary ss all_results = Inr rs" by (rule exE)
    from data Some ss(1) rs show ?thesis by (simp add: read_page_def obind_def)
  qed
qed

lemma read_page_typed:
  assumes "page_ok data"
  shows "\<exists>rows. map summary_of (studies_of data) = map Inr rows
     \<and> (if studies_of data = [] then read_page data all_results = Inr No_studies
        else (\<exists>next_token. read_page data all_results
                = Inr (Page_done (all_results @ rows) next_token)))"
proof -
  from read_page_total [OF assms, of all_results] obtain step where
    step: "read_page data all_results = Inr step" by (rule exE)
  show ?thesis
  proof (cases step)
    case No_studies
    with step have r: "read_page data all_results = Inr No_studies" by simp
    from read_page_no_studies [OF r] r show ?thesis by simp
  next
    case (Page_done rs next_token)
    with step have r: "read_page data all_results = Inr (Page_done rs next_token)" by simp
    from read_page_rows [OF r] obtain rows where
      rows: "rs = all_results @ rows" "map summary_of (studies_of data) = map Inr rows"
      by (elim exE conjE)
    from r have "studies_of data \<noteq> []" by (rule read_page_done_studies)
    with r rows show ?thesis by auto
  qed
qed

lemma fetch_loop_rows:
  "fetch_loop remote disease max_pages all_results page_token page_count = (Inr rs, events) \<Longrightarrow>
     \<exists>rows. rs = all_results @ rows
       \<and> map summary_of (requested_studies remote page_count events) = map Inr rows"
proof (induction remote disease max_pages all_results page_token page_count arbitrary: rs events
    rule: fetch_loop.induct)
  case (1 remote disease max_pages all_results page_token page_count)
  show ?case
  proof (cases rule: fetch_loop_cases [of page_count max_pages remote disease all_results page_token])
    case stop
    with "1.prems" show ?thesis by simp
  next
    case failed
    with "1.prems" show ?thesis by simp
  next
    case (raised data e)
    with "1.prems" show ?thesis by simp
  next
    case (no_studies data)
    from read_page_no_studies [OF no_studies(3)] no_studies(2,4) "1.prems" show ?thesis by simp
  next
    case (no_token data all_results' next_token)
    from read_page_rows [OF no_token(3)] obtain rows where
      "all_results' = all_results @ rows" "map summary_of (studies_of data) = map Inr rows"
      by (elim exE conjE)
    with no_token(2,5) "1.prems" have "rs = all_results @ rows
       \<and> map summary_of (requested_studies remote page_count events) = map Inr rows" by simp
    then show ?thesis by (rule exI [where x = rows])
  next
    case (next_page data all_results' next_token)
    let ?rest = "fetch_loop remote disease max_pages all_results' next_token (Suc page_count)"
    from read_page_rows [OF next_page(3)] obtain rows where
      rows: "all_results' = all_results @ rows" "map summary_of (studies_of data) = map Inr rows"
      by (elim exE conjE)
    from next_page(5) "1.prems" have rest: "?rest = (Inr rs, snd ?rest)"
      and ev: "events = Request disease (token_param page_token) # Sleep # snd ?rest"
      by (simp_all add: prod_eq_iff)
    from next_page(4) have "\<not> \<not> truthy next_token" by simp
    from "1.IH" [OF next_page(1,2,3) refl this rest] obtain later where
      later: "rs = all_results' @ later"
        "map summary_of (requested_studies remote (Suc page_count) (snd ?rest)) = map Inr later"
      by (elim exE conjE)
    from rows later ev next_page(2) have "rs = all_results @ (rows @ later)
       \<and> map summary_of (requested_studies remote page_count events) = map Inr (rows @ later)"
      by simp
    then show ?thesis by (rule exI [where x = "rows @ later"])
  qed
qed

lemma fetch_loop_total:
  assumes "\<forall>n sent. \<exists>data. remote n disease sent = Body data \<and> page_ok data"
  shows "\<exists>rs. fst (fetch_loop remote disease max_pages all_results page_token page_count) = Inr rs"
  using assms
proof (induction remote disease max_pages all_results page_token page_count
    rule: fetch_loop.induct)
  case (1 remote disease max_pages all_results page_token page_count)
  from "1.prems" obtain page where
    page: "remote page_count disease (token_param page_token) = Body page" "page_ok page"
    by blast
  show ?case
  proof (cases rule: fetch_loop_cases [of page_count max_pages remote disease all_results page_token])
    case failed
    with page show ?thesis by simp
  next
    case (raised data e)
    with page have "page_ok data" by simp
    from read_page_total [OF this, of all_results] raised(3) show ?thesis by simp
  next
    case (next_page data all_results' next_token)
    from next_page(4) have "\<not> \<not> truthy next_token" by simp
    from "1.IH" [OF next_page(1,2,3) refl this "1.prems"] next_page(5) show ?thesis by simp
  qed simp_all
qed

lemma fetch_all_rows:
  assumes run: "fetch_all_vaccine_trials remote disease max_pages = (Inr rows, events)"
    and quiet: "Error_shown \<notin> set events"
  shows "map summary_of (requested_studies remote 0 events) = map Inr rows"
proof -
  let ?loop = "fetch_loop remote disease max_pages [] JNull 0"
  have "fst ?loop \<noteq> Inl RequestException"
  proof
    assume "fst ?loop = Inl RequestException"
    with run have "events = snd ?loop @ [Error_shown]"
      by (simp add: fetch_all_vaccine_trials_def split: prod.splits)
    with quiet show False by simp
  qed
  with run have "?loop = (Inr rows, events)"
    by (simp add: fetch_all_vaccine_trials_def split: prod.splits)
  from fetch_loop_rows [OF this] show ?thesis by simp
qed

lemma fetch_all_total:
  assumes "\<forall>n sent. \<exists>data. remote n disease sent = Body data \<and> page_ok data"
  shows "\<exists>rows events. fetch_all_vaccine_trials remote disease max_pages = (Inr rows, events)
     \<and> map summary_of (requested_studies remote 0 events) = map Inr rows
     \<and> length rows = length (requested_studies remote 0 events)"
proof -
  let ?loop = "fetch_loop remote disease max_pages [] JNull 0"
  from assms fetch_loop_total [where remote = remote and disease = disease
      and max_pages = max_pages and all_results = "[]" and page_token = JNull and page_count = 0]
  obtain rs where rs: "fst ?loop = Inr rs" by blast
  then have loop: "?loop = (Inr rs, snd ?loop)" by (simp add: prod_eq_iff)
  from fetch_loop_rows [OF loop]
  have rows: "map summary_of (requested_studies remote 0 (snd ?loop)) = map Inr rs" by simp
  from arg_cong [OF rows, of length]
  have n: "length rs = length (requested_studies remote 0 (snd ?loop))" by simp
  have "fetch_all_vaccine_trials remote disease max_pages = (Inr rs, snd ?loop)"
    by (simp add: prod_eq_iff fetch_all_outcome fetch_all_events rs)
  with rows n show ?thesis
    by (intro exI [where x = rs] exI [where x = "snd ?loop"] conjI)
qed

text \<open>Runs against the example registries.\<close>

lemma studies_of_token_page: "studies_of token_page = [JObj []]"
  by (simp add: studies_of_def token_page_def)

lemma page_ok_token_page: "page_ok token_page"
  by (simp add: page_ok_def field_ok_def token_page_def study_ok_bare)

lemma two_page_run:
  "fetch_loop endless_registry (JStr ''RSV'') 2 rows JNull 0 =
     (Inr (rows @ [bare_row, bare_row]),
      [Request (JStr ''RSV'') None, Sleep, Request (JStr ''RSV'') (Some (JStr ''next'')), Sleep])"
proof -
  have two: "fetch_loop endless_registry (JStr ''RSV'') 2 (rows @ [bare_row, bare_row])
      (JStr ''next'') (Suc (Suc 0)) = (Inr (rows @ [bare_row, bare_row]), [])"
    by (simp add: fetch_loop_stop)
  have one: "fetch_loop endless_registry (JStr ''RSV'') 2 (rows @ [bare_row]) (JStr ''next'') (Suc 0) =
      (Inr (rows @ [bare_row, bare_row]), [Request (JStr ''RSV'') (Some (JStr ''next'')), Sleep])"
    using fetch_loop_next [of "Suc 0" 2 endless_registry "JStr ''RSV''" "JStr ''next''" token_page
        "rows @ [bare_row]" "rows @ [bare_row, bare_row]" "JStr ''next''"] two
    by (simp add: endless_registry_def read_page_token_page token_param_def)
  show ?thesis
    using fetch_loop_next [of 0 2 endless_registry "JStr ''RSV''" JNull token_page rows
        "rows @ [bare_row]" "JStr ''next''"] one
    by (simp add: endless_registry_def read_page_token_page token_param_def)
qed

lemma two_page_run_all:
  "fetch_all_vaccine_trials endless_registry (JStr ''RSV'') 2 =
     (Inr [bare_row, bare_row],
      [Request (JStr ''RSV'') None, Sleep, Request (JStr ''RSV'') (Some (JStr ''next'')), Sleep])"
  using two_page_run [of "[]"] by (simp add: fetch_all_vaccine_trials_def)




section \<open>Facts about the order in which a set is visited\<close>

lemma visit_one:
  assumes "set (xs :: string list) = {x}" and "length xs = 1"
  shows "xs = [x]"
  using assms by (cases xs) auto

lemma visit_two:
  assumes "set (xs :: string list) = {x, y}" and "length xs = 2" and "x \<noteq> y"
  shows "xs = [x, y] \<or> xs = [y, x]"
proof -
  from assms(2) obtain a b where xs: "xs = [a, b]"
    by (cases xs; cases "tl xs") auto
  with assms(1) have ab: "{a, b} = {x, y}" by simp
  with assms(3) have "(a = x \<and> b = y) \<or> (a = y \<and> b = x)" by (auto simp: doubleton_eq_iff)
  with xs show ?thesis by auto
qed

lemma acme_joined:
  "py_str_in (lower ''Acme-Vax'') (join '' '' (map lower [''Placebo'', ''Acme-Vax'']))"
  "py_str_in (lower ''Acme-Vax'') (join '' '' (map lower [''Acme-Vax'', ''Placebo'']))"
  by (simp_all add: lower_def lower_char_def)

lemma own_trials_acme:
  assumes "visit [''Placebo''] = [''Placebo'']"
  shows "own_trials visit ''Acme-Vax'' [acme_trial] = Inr []"
  using assms
  by (simp add: acme_trial_def acme_arms_def own_trials_def add_own_trial_def
      normalizer_defs lower_def lower_char_def)

section \<open>The phase filter\<close>

text \<open>
  Claim C1: the phase filter admits a record iff some selected phase is equal to one
  of the tokens obtained by splitting the record's joined phase string. The sidebar
  offers these tokens for selection (line 195 splits every phase string), but the
  filter (app7.py, lines 202 and 401; app.py, line 126) tests each selected phase with
  \<^verbatim>\<open>in\<close> on the joined string, which on two strings is the substring test. For
  the listing of a trial in EARLY_PHASE1 and a trial in PHASE1 the options are
  EARLY_PHASE1 and PHASE1; with PHASE1 alone selected, the filter still admits the
  trial in EARLY_PHASE1, whose only token is EARLY_PHASE1.
\<close>

theorem phase_filter_admits_unselected_phase:
  "phase_options [early_phase1_row, phase1_row] = [''EARLY_PHASE1'', ''PHASE1'']
   \<and> phase_filter [''PHASE1''] [early_phase1_row, phase1_row] = [early_phase1_row, phase1_row]
   \<and> py_split (Phase early_phase1_row) = [''EARLY_PHASE1'']
   \<and> ''PHASE1'' \<notin> set (py_split (Phase early_phase1_row))"
  by (simp add: phase_options_def sorted_strs_def phase_filter_def phase_admits_def
      early_phase1_row_def phase1_row_def py_split_def)

text \<open>
  The direction of the claim that holds of the code: a record with a selected phase
  among its tokens is admitted. The records admitted are those in whose joined phase
  string a selected phase occurs.
\<close>

lemma phase_filter_test:
  "(row \<in> set df \<longrightarrow> (\<exists>ph \<in> set selected_phases. ph \<in> set (py_split (Phase row))) \<longrightarrow>
        row \<in> set (phase_filter selected_phases df))
   \<and> (row \<in> set (phase_filter selected_phases df) \<longleftrightarrow>
      row \<in> set df \<and> (\<exists>ph \<in> set selected_phases. \<exists>pre suf. Phase row = pre @ ph @ suf))"
proof -
  have admits: "phase_admits selected_phases row \<longleftrightarrow>
      (\<exists>ph \<in> set selected_phases. \<exists>pre suf. Phase row = pre @ ph @ suf)"
    by (simp add: phase_admits_def list_ex_iff py_str_in_iff)
  have token: "(\<exists>ph \<in> set selected_phases. ph \<in> set (py_split (Phase row))) \<Longrightarrow>
      phase_admits selected_phases row"
    using token_is_substring by (auto simp: phase_admits_def list_ex_iff)
  show ?thesis
    using admits token by (auto simp: phase_filter_def)
qed

section \<open>The normalizer\<close>

text \<open>
  Claim C8: for every raw trial object, normalization returns a row and puts
  placeholders where the registry reports nothing: when the sponsor's name cannot be
  reached (the sponsor module, the lead sponsor in it or the name in it is missing)
  the sponsor is "Unknown", and when the phases list is missing or empty the phases
  are the list of "Not reported" alone, which the row holds joined as "Not reported".
  A raw trial object is an object of the registry's JSON types (\<open>study_ok\<close>).
\<close>

theorem normalizer_total_with_placeholders:
  assumes "study_ok s"
  shows "\<exists>row. summary_of s = Inr row
     \<and> (field_at s [''protocolSection'', ''sponsorCollaboratorsModule'', ''leadSponsor'', ''name''] = None
          \<longrightarrow> Sponsor row = JStr ''Unknown'')
     \<and> (field_at s [''protocolSection'', ''designModule'', ''phases''] = None
        \<or> field_at s [''protocolSection'', ''designModule'', ''phases''] = Some (JArr [])
          \<longrightarrow> Phase row = ''Not reported'')"
proof -
  from summary_of_total [OF assms] obtain row where row: "summary_of s = Inr row" by (rule exE)
  from summary_of_fields [OF row] obtain proto design sponsor phase where
    proto: "dict_get s ''protocolSection'' (JObj []) = Inr proto"
    and design: "dict_get proto ''designModule'' (JObj []) = Inr design"
    and sponsor: "dict_get proto ''sponsorCollaboratorsModule'' (JObj []) = Inr sponsor"
    and phase: "phases_of design = Inr phase" "py_join '', '' phase = Inr (Phase row)"
    and name: "sponsor_name_of sponsor = Inr (Sponsor row)"
    by (elim exE conjE)
  have a: "field_at s [''protocolSection'', ''sponsorCollaboratorsModule'', ''leadSponsor'', ''name''] = None
      \<longrightarrow> Sponsor row = JStr ''Unknown''"
  proof
    assume missing: "field_at s [''protocolSection'', ''sponsorCollaboratorsModule'', ''leadSponsor'', ''name''] = None"
    from field_at_step_None [OF proto missing]
    have "field_at proto [''sponsorCollaboratorsModule'', ''leadSponsor'', ''name''] = None" .
    from field_at_step_None [OF sponsor this]
    have "field_at sponsor [''leadSponsor'', ''name''] = None" .
    from sponsor_name_of_unreachable [OF name this] show "Sponsor row = JStr ''Unknown''" .
  qed
  have b: "field_at s [''protocolSection'', ''designModule'', ''phases''] = None
        \<or> field_at s [''protocolSection'', ''designModule'', ''phases''] = Some (JArr [])
      \<longrightarrow> Phase row = ''Not reported''"
  proof
    assume h: "field_at s [''protocolSection'', ''designModule'', ''phases''] = None
        \<or> field_at s [''protocolSection'', ''designModule'', ''phases''] = Some (JArr [])"
    have "field_at design [''phases''] = None \<or> field_at design [''phases''] = Some (JArr [])"
    proof (rule disjE [OF h])
      assume n: "field_at s [''protocolSection'', ''designModule'', ''phases''] = None"
      from field_at_step_None [OF proto n]
      have "field_at proto [''designModule'', ''phases''] = None" .
      from field_at_step_None [OF design this] show ?thesis by (rule disjI1)
    next
      assume e: "field_at s [''protocolSection'', ''designModule'', ''phases''] = Some (JArr [])"
      from field_at_step_Some [OF proto e]
      have "field_at proto [''designModule'', ''phases''] = Some (JArr [])" .
      from field_at_step_Some [OF design this] show ?thesis by (rule disjI2)
    qed
    from phases_of_placeholder [OF phase(1) this] have "phase = JArr [JStr ''Not reported'']" .
    then show "Phase row = ''Not reported''" using phase(2) py_join_placeholder by simp
  qed
  show ?thesis by (rule exI [where x = row]) (rule conjI [OF row conjI [OF a b]])
qed

theorem normalizer_total_with_placeholders_witness:
  "study_ok (JObj []) \<and>
   (\<exists>row. summary_of (JObj []) = Inr row \<and> Sponsor row = JStr ''Unknown''
      \<and> Phase row = ''Not reported'')
   \<and> study_ok no_phase_trial
   \<and> field_at no_phase_trial [''protocolSection'', ''designModule'', ''phases''] = Some (JArr [])
   \<and> (\<exists>row. summary_of no_phase_trial = Inr row \<and> Phase row = ''Not reported'')"
proof -
  have ok: "study_ok (JObj [])" by (simp add: ok_defs)
  have f1: "field_at (JObj [])
      [''protocolSection'', ''sponsorCollaboratorsModule'', ''leadSponsor'', ''name''] = None"
    by simp
  have f2: "field_at (JObj []) [''protocolSection'', ''designModule'', ''phases''] = None"
    by simp
  from normalizer_total_with_placeholders [OF ok] obtain row where
    r: "summary_of (JObj []) = Inr row"
    and a: "field_at (JObj [])
      [''protocolSection'', ''sponsorCollaboratorsModule'', ''leadSponsor'', ''name''] = None
      \<longrightarrow> Sponsor row = JStr ''Unknown''"
    and b: "field_at (JObj []) [''protocolSection'', ''designModule'', ''phases''] = None
        \<or> field_at (JObj []) [''protocolSection'', ''designModule'', ''phases''] = Some (JArr [])
      \<longrightarrow> Phase row = ''Not reported''"
    by (elim exE conjE)
  from a f1 have s: "Sponsor row = JStr ''Unknown''" by (rule mp)
  from b disjI1 [OF f2] have p: "Phase row = ''Not reported''" by (rule mp)
  have bare: "\<exists>row. summary_of (JObj []) = Inr row \<and> Sponsor row = JStr ''Unknown''
      \<and> Phase row = ''Not reported''"
    by (rule exI [where x = row]) (rule conjI [OF r conjI [OF s p]])
  have ok': "study_ok no_phase_trial" by (simp add: no_phase_trial_def ok_defs)
  have f3: "field_at no_phase_trial [''protocolSection'', ''designModule'', ''phases'']
      = Some (JArr [])"
    by (simp add: no_phase_trial_def)
  from normalizer_total_with_placeholders [OF ok'] obtain row' where
    r': "summary_of no_phase_trial = Inr row'"
    and b': "field_at no_phase_trial [''protocolSection'', ''designModule'', ''phases''] = None
        \<or> field_at no_phase_trial [''protocolSection'', ''designModule'', ''phases'']
            = Some (JArr [])
      \<longrightarrow> Phase row' = ''Not reported''"
    by (elim exE conjE)
  from b' disjI2 [OF f3] have p': "Phase row' = ''Not reported''" by (rule mp)
  have empty: "\<exists>row. summary_of no_phase_trial = Inr row \<and> Phase row = ''Not reported''"
    by (rule exI [where x = row']) (rule conjI [OF r' p'])
  show ?thesis by (intro conjI) (rule ok bare ok' f3 empty)+
qed

text \<open>
  Claim C9: for every page, the fetcher appends exactly one row per study of the
  page, the row that the normalizer makes of the study, in the order of the page, and
  no row is dropped. A page of raw trial objects is always read to its end: the
  results are then the results before it followed by the rows of its studies. The
  same holds of every page that is read to its end. The list that the loop returns
  is the list it started from followed by the rows of the studies of all the pages
  its requests were answered with, in the order of the requests; so is the list that
  the function returns when the handler did not end the run, and against a registry
  whose pages hold raw trial objects the function always returns this list. A study
  without identification module or without \<^verbatim>\<open>nctId\<close> gets the id
  \<^verbatim>\<open>None\<close>, where the title of a study without identification module is the
  placeholder "No title".
\<close>

theorem one_row_per_study:
  "(page_ok data \<longrightarrow>
      (\<exists>rows. map summary_of (studies_of data) = map Inr rows
         \<and> (if studies_of data = [] then read_page data all_results = Inr No_studies
            else (\<exists>next_token. read_page data all_results
                    = Inr (Page_done (all_results @ rows) next_token)))))
   \<and> (\<forall>rs next_token. read_page data all_results = Inr (Page_done rs next_token) \<longrightarrow>
         (\<exists>rows. rs = all_results @ rows
            \<and> map summary_of (studies_of data) = map Inr rows))
   \<and> (\<forall>rs events.
         fetch_loop remote disease max_pages all_results page_token page_count = (Inr rs, events)
         \<longrightarrow> (\<exists>rows. rs = all_results @ rows
                \<and> map summary_of (requested_studies remote page_count events) = map Inr rows))
   \<and> (\<forall>rows events.
         fetch_all_vaccine_trials remote disease max_pages = (Inr rows, events) \<longrightarrow>
         Error_shown \<notin> set events \<longrightarrow>
         map summary_of (requested_studies remote 0 events) = map Inr rows)
   \<and> ((\<forall>n sent. \<exists>data. remote n disease sent = Body data \<and> page_ok data) \<longrightarrow>
         (\<exists>rows events. fetch_all_vaccine_trials remote disease max_pages = (Inr rows, events)
            \<and> map summary_of (requested_studies remote 0 events) = map Inr rows
            \<and> length rows = length (requested_studies remote 0 events)))
   \<and> (\<forall>row. summary_of s = Inr row \<longrightarrow>
         field_at s [''protocolSection'', ''identificationModule'', ''nctId''] = None \<longrightarrow>
         NCT_ID row = JNull)
   \<and> (\<forall>row. summary_of s = Inr row \<longrightarrow>
         field_at s [''protocolSection'', ''identificationModule''] = None \<longrightarrow>
         NCT_ID row = JNull \<and> Title row = JStr ''No title'')"
proof (intro conjI allI impI)
  assume "page_ok data"
  then show "\<exists>rows. map summary_of (studies_of data) = map Inr rows
         \<and> (if studies_of data = [] then read_page data all_results = Inr No_studies
            else (\<exists>next_token. read_page data all_results
                    = Inr (Page_done (all_results @ rows) next_token)))"
    by (rule read_page_typed)
next
  fix rs next_token
  assume "read_page data all_results = Inr (Page_done rs next_token)"
  then show "\<exists>rows. rs = all_results @ rows \<and> map summary_of (studies_of data) = map Inr rows"
    by (rule read_page_rows)
next
  fix rs events
  assume "fetch_loop remote disease max_pages all_results page_token page_count = (Inr rs, events)"
  then show "\<exists>rows. rs = all_results @ rows
      \<and> map summary_of (requested_studies remote page_count events) = map Inr rows"
    by (rule fetch_loop_rows)
next
  fix rows events
  assume "fetch_all_vaccine_trials remote disease max_pages = (Inr rows, events)"
    "Error_shown \<notin> set events"
  then show "map summary_of (requested_studies remote 0 events) = map Inr rows"
    by (rule fetch_all_rows)
next
  assume "\<forall>n sent. \<exists>data. remote n disease sent = Body data \<and> page_ok data"
  then show "\<exists>rows events. fetch_all_vaccine_trials remote disease max_pages = (Inr rows, events)
            \<and> map summary_of (requested_studies remote 0 events) = map Inr rows
            \<and> length rows = length (requested_studies remote 0 events)"
    by (rule fetch_all_total)
next
  fix row
  assume row: "summary_of s = Inr row"
    and missing: "field_at s [''protocolSection'', ''identificationModule'', ''nctId''] = None"
  from summary_of_fields [OF row] obtain proto ident where
    proto: "dict_get s ''protocolSection'' (JObj []) = Inr proto"
    and ident: "dict_get proto ''identificationModule'' (JObj []) = Inr ident"
    and nct: "dict_get ident ''nctId'' JNull = Inr (NCT_ID row)"
    by (elim exE conjE)
  from field_at_step_None [OF proto missing]
  have "field_at proto [''identificationModule'', ''nctId''] = None" .
  from field_at_step_None [OF ident this] have "field_at ident [''nctId''] = None" .
  from field_at_leaf(1) [OF nct this] show "NCT_ID row = JNull" .
next
  fix row
  assume row: "summary_of s = Inr row"
    and missing: "field_at s [''protocolSection'', ''identificationModule''] = None"
  from summary_of_fields [OF row] obtain proto ident where
    proto: "dict_get s ''protocolSection'' (JObj []) = Inr proto"
    and ident: "dict_get proto ''identificationModule'' (JObj []) = Inr ident"
    and nct: "dict_get ident ''nctId'' JNull = Inr (NCT_ID row)"
    and title: "title_of ident = Inr (Title row)"
    by (elim exE conjE)
  from field_at_step_None [OF proto missing]
  have "field_at proto [''identificationModule''] = None" .
  from field_at_leaf(1) [OF ident this] have bare: "ident = JObj []" .
  from nct bare show "NCT_ID row = JNull" by simp
  from title bare title_of_bare show "Title row = JStr ''No title''" by simp
qed

theorem one_row_per_study_witness:
  "page_ok token_page
   \<and> (\<exists>next_token. read_page token_page [bare_row]
          = Inr (Page_done ([bare_row] @ [bare_row]) next_token))
   \<and> map summary_of (studies_of token_page) = map Inr [bare_row]
   \<and> fetch_loop endless_registry (JStr ''RSV'') 2 [bare_row] JNull 0 =
       (Inr ([bare_row] @ [bare_row, bare_row]),
        [Request (JStr ''RSV'') None, Sleep, Request (JStr ''RSV'') (Some (JStr ''next'')), Sleep])
   \<and> fetch_all_vaccine_trials endless_registry (JStr ''RSV'') 2 =
       (Inr [bare_row, bare_row],
        [Request (JStr ''RSV'') None, Sleep, Request (JStr ''RSV'') (Some (JStr ''next'')), Sleep])
   \<and> map summary_of (requested_studies endless_registry 0
        [Request (JStr ''RSV'') None, Sleep, Request (JStr ''RSV'') (Some (JStr ''next'')), Sleep])
       = map Inr [bare_row, bare_row]
   \<and> (\<exists>rows events. fetch_all_vaccine_trials endless_registry (JStr ''RSV'') 2 = (Inr rows, events)
         \<and> length rows = length (requested_studies endless_registry 0 events))
   \<and> summary_of (JObj []) = Inr bare_row
   \<and> field_at (JObj []) [''protocolSection'', ''identificationModule'', ''nctId''] = None
   \<and> field_at (JObj []) [''protocolSection'', ''identificationModule''] = None
   \<and> NCT_ID bare_row = JNull
   \<and> Title bare_row = JStr ''No title''"
proof -
  let ?events = "[Request (JStr ''RSV'') None, Sleep,
      Request (JStr ''RSV'') (Some (JStr ''next'')), Sleep]"
  note claim = one_row_per_study [of token_page "[bare_row]" endless_registry "JStr ''RSV''" 2
      JNull 0 "JObj []"]
  have ok: "page_ok token_page" by (rule page_ok_token_page)
  from mp [OF conjunct1 [OF claim] ok] obtain rows where
    rows: "map summary_of (studies_of token_page) = map Inr rows"
    and page: "if studies_of token_page = [] then read_page token_page [bare_row] = Inr No_studies
        else (\<exists>next_token. read_page token_page [bare_row]
                = Inr (Page_done ([bare_row] @ rows) next_token))"
    by (elim exE conjE)
  from rows have "map Inr rows = [Inr bare_row :: py_error + trial_summary]"
    by (simp add: studies_of_token_page summary_of_bare)
  then have "rows = [bare_row]" by (cases rows) auto
  with page have a: "\<exists>next_token. read_page token_page [bare_row]
          = Inr (Page_done ([bare_row] @ [bare_row]) next_token)"
    by (simp add: studies_of_token_page)
  have read: "read_page token_page [bare_row] = Inr (Page_done [bare_row, bare_row] (JStr ''next''))"
    using read_page_token_page [of "[bare_row]"] by simp
  from conjunct1 [OF conjunct2 [OF claim]]
  have "\<forall>next_token. read_page token_page [bare_row]
        = Inr (Page_done [bare_row, bare_row] next_token) \<longrightarrow>
      (\<exists>rows. [bare_row, bare_row] = [bare_row] @ rows
         \<and> map summary_of (studies_of token_page) = map Inr rows)" by (rule allE)
  then have "read_page token_page [bare_row]
        = Inr (Page_done [bare_row, bare_row] (JStr ''next'')) \<longrightarrow>
      (\<exists>rows. [bare_row, bare_row] = [bare_row] @ rows
         \<and> map summary_of (studies_of token_page) = map Inr rows)" by (rule allE)
  from mp [OF this read] obtain rows' where "[bare_row, bare_row] = [bare_row] @ rows'"
    and r': "map summary_of (studies_of token_page) = map Inr rows'" by (elim exE conjE)
  then have "rows' = [bare_row]" by simp
  with r' have b: "map summary_of (studies_of token_page) = map Inr [bare_row]" by simp
  have loop: "fetch_loop endless_registry (JStr ''RSV'') 2 [bare_row] JNull 0 =
       (Inr ([bare_row] @ [bare_row, bare_row]), ?events)"
    by (rule two_page_run)
  from conjunct1 [OF conjunct2 [OF conjunct2 [OF claim]]]
  have "\<forall>events. fetch_loop endless_registry (JStr ''RSV'') 2 [bare_row] JNull 0
        = (Inr ([bare_row] @ [bare_row, bare_row]), events) \<longrightarrow>
      (\<exists>rows. [bare_row] @ [bare_row, bare_row] = [bare_row] @ rows
         \<and> map summary_of (requested_studies endless_registry 0 events) = map Inr rows)"
    by (rule allE)
  then have "fetch_loop endless_registry (JStr ''RSV'') 2 [bare_row] JNull 0
        = (Inr ([bare_row] @ [bare_row, bare_row]), ?events) \<longrightarrow>
      (\<exists>rows. [bare_row] @ [bare_row, bare_row] = [bare_row] @ rows
         \<and> map summary_of (requested_studies endless_registry 0 ?events) = map Inr rows)"
    by (rule allE)
  from mp [OF this loop] obtain rows2 where "[bare_row] @ [bare_row, bare_row] = [bare_row] @ rows2"
    and r2: "map summary_of (requested_studies endless_registry 0 ?events) = map Inr rows2"
    by (elim exE conjE)
  then have "rows2 = [bare_row, bare_row]" by simp
  with r2 have c: "map summary_of (requested_studies endless_registry 0 ?events)
      = map Inr [bare_row, bare_row]" by simp
  have run: "fetch_all_vaccine_trials endless_registry (JStr ''RSV'') 2 =
       (Inr [bare_row, bare_row], ?events)" by (rule two_page_run_all)
  have quiet: "Error_shown \<notin> set ?events" by simp
  from conjunct1 [OF conjunct2 [OF conjunct2 [OF conjunct2 [OF claim]]]]
  have "\<forall>events. fetch_all_vaccine_trials endless_registry (JStr ''RSV'') 2
        = (Inr [bare_row, bare_row], events) \<longrightarrow> Error_shown \<notin> set events \<longrightarrow>
      map summary_of (requested_studies endless_registry 0 events) = map Inr [bare_row, bare_row]"
    by (rule allE)
  then have "fetch_all_vaccine_trials endless_registry (JStr ''RSV'') 2
        = (Inr [bare_row, bare_row], ?events) \<longrightarrow> Error_shown \<notin> set ?events \<longrightarrow>
      map summary_of (requested_studies endless_registry 0 ?events) = map Inr [bare_row, bare_row]"
    by (rule allE)
  from mp [OF mp [OF this run] quiet]
  have d: "map summary_of (requested_studies endless_registry 0 ?events)
      = map Inr [bare_row, bare_row]" .
  have typed: "\<forall>n sent. \<exists>data. endless_registry n (JStr ''RSV'') sent = Body data \<and> page_ok data"
    by (simp add: endless_registry_def page_ok_token_page)
  from mp [OF conjunct1 [OF conjunct2 [OF conjunct2 [OF conjunct2 [OF conjunct2 [OF claim]]]]] typed]
  obtain rows3 events3 where
    e3: "fetch_all_vaccine_trials endless_registry (JStr ''RSV'') 2 = (Inr rows3, events3)"
      "length rows3 = length (requested_studies endless_registry 0 events3)"
    by (elim exE conjE)
  have e: "\<exists>rows events. fetch_all_vaccine_trials endless_registry (JStr ''RSV'') 2 = (Inr rows, events)
         \<and> length rows = length (requested_studies endless_registry 0 events)"
    by (intro exI [where x = rows3] exI [where x = events3] conjI) (rule e3)+
  have m1: "field_at (JObj []) [''protocolSection'', ''identificationModule'', ''nctId''] = None"
    by simp
  have m2: "field_at (JObj []) [''protocolSection'', ''identificationModule''] = None"
    by simp
  from conjunct1 [OF conjunct2 [OF conjunct2 [OF conjunct2 [OF conjunct2 [OF conjunct2 [OF claim]]]]]]
  have "summary_of (JObj []) = Inr bare_row \<longrightarrow>
         field_at (JObj []) [''protocolSection'', ''identificationModule'', ''nctId''] = None \<longrightarrow>
         NCT_ID bare_row = JNull" by (rule allE)
  from mp [OF mp [OF this summary_of_bare] m1] have id: "NCT_ID bare_row = JNull" .
  from conjunct2 [OF conjunct2 [OF conjunct2 [OF conjunct2 [OF conjunct2 [OF conjunct2 [OF claim]]]]]]
  have "summary_of (JObj []) = Inr bare_row \<longrightarrow>
         field_at (JObj []) [''protocolSection'', ''identificationModule''] = None \<longrightarrow>
         NCT_ID bare_row = JNull \<and> Title bare_row = JStr ''No title''" by (rule allE)
  from conjunct2 [OF mp [OF mp [OF this summary_of_bare] m2]]
  have title: "Title bare_row = JStr ''No title''" .
  show ?thesis by (intro conjI) (rule ok a b loop run d e summary_of_bare m1 m2 id title)+
qed

text \<open>
  Claim C10: an intervention item whose name is missing or empty adds nothing to the
  product set; a name of an arm group is stripped and added whatever it is; so the
  product set of the trial whose arm group lists a name of two spaces holds the
  empty string (and the row's product column is the empty string).
\<close>

theorem blank_arm_name_enters_product_set:
  "(\<forall>kvs vaccines.
      map_of kvs ''name'' = None \<or> map_of kvs ''name'' = Some (JStr []) \<longrightarrow>
      add_intervention vaccines (JObj kvs) = Inr vaccines)
   \<and> (\<forall>name vaccines.
        add_arm_name vaccines (JStr name) = Inr (set_add (strip name) vaccines)
        \<and> strip name \<in> set (set_add (strip name) vaccines))
   \<and> extract_vaccines blank_arms = Inr ['''']
   \<and> (\<exists>row. summary_of blank_arm_trial = Inr row \<and> Vaccines row = '''')"
proof (intro conjI allI impI)
  fix kvs vaccines
  assume "map_of kvs ''name'' = None \<or> map_of kvs ''name'' = Some (JStr [])"
  then show "add_intervention vaccines (JObj kvs) = Inr vaccines"
    by (auto simp: add_intervention_def obind_def)
next
  fix name vaccines
  show "add_arm_name vaccines (JStr name) = Inr (set_add (strip name) vaccines)"
    by (simp add: add_arm_name_def obind_def)
  show "strip name \<in> set (set_add (strip name) vaccines)"
    by (simp add: set_add_def)
next
  show "extract_vaccines blank_arms = Inr ['''']"
    by (simp add: blank_arms_def normalizer_defs)
next
  have "summary_of blank_arm_trial =
     Inr \<lparr> NCT_ID = JNull, Title = JStr ''No title'', Phase = ''Not reported'',
           Status = JStr ''Unknown'', Sponsor = JStr ''Unknown'', Vaccines = '''' \<rparr>"
    by (simp add: blank_arm_trial_def blank_arms_def normalizer_defs)
  then show "\<exists>row. summary_of blank_arm_trial = Inr row \<and> Vaccines row = ''''"
    by simp
qed

theorem blank_arm_name_enters_product_set_witness:
  "map_of [(''type'', JStr ''BIOLOGICAL'')] ''name'' = None
   \<and> add_intervention [''Acme-Vax''] (JObj [(''type'', JStr ''BIOLOGICAL'')]) = Inr [''Acme-Vax'']
   \<and> add_intervention [''Acme-Vax''] (JObj [(''name'', JStr '''')]) = Inr [''Acme-Vax'']"
proof -
  note claim = blank_arm_name_enters_product_set
  from claim have all: "\<forall>kvs vaccines.
      map_of kvs ''name'' = None \<or> map_of kvs ''name'' = Some (JStr []) \<longrightarrow>
      add_intervention vaccines (JObj kvs) = Inr vaccines" by (rule conjunct1)
  have m1: "map_of [(''type'', JStr ''BIOLOGICAL'')] ''name'' = None" by simp
  have m2: "map_of [(''name'', JStr '''')] ''name'' = Some (JStr [])" by simp
  from all have "map_of [(''type'', JStr ''BIOLOGICAL'')] ''name'' = None
      \<or> map_of [(''type'', JStr ''BIOLOGICAL'')] ''name'' = Some (JStr []) \<longrightarrow>
      add_intervention [''Acme-Vax''] (JObj [(''type'', JStr ''BIOLOGICAL'')]) = Inr [''Acme-Vax'']"
    by (elim allE)
  from mp [OF this disjI1 [OF m1]]
  have a: "add_intervention [''Acme-Vax''] (JObj [(''type'', JStr ''BIOLOGICAL'')]) = Inr [''Acme-Vax'']" .
  from all have "map_of [(''name'', JStr '''')] ''name'' = None
      \<or> map_of [(''name'', JStr '''')] ''name'' = Some (JStr []) \<longrightarrow>
      add_intervention [''Acme-Vax''] (JObj [(''name'', JStr '''')]) = Inr [''Acme-Vax'']"
    by (elim allE)
  from mp [OF this disjI2 [OF m2]]
  have b: "add_intervention [''Acme-Vax''] (JObj [(''name'', JStr '''')]) = Inr [''Acme-Vax'']" .
  show ?thesis by (intro conjI) (rule m1 a b)+
qed

section \<open>The listing against the detail view\<close>

text \<open>
  Claim C6, as the specification words it: the row of the listing and the record of
  the detail view, made from the same raw trial object, agree on id, title, status,
  sponsor and phases. The record of the detail view has no id. On the status the two
  differ for a trial whose reported status is the empty string: the listing reads it
  with \<^verbatim>\<open>or "Unknown"\<close> (line 60), the detail view with a default only (line 131).
\<close>

theorem summary_detail_status_counterexample:
  "detail_ok empty_status_trial
   \<and> summary_of empty_status_trial =
       Inr \<lparr> NCT_ID = JStr ''NCT00000004'', Title = JStr ''Trial D'', Phase = ''Not reported'',
             Status = JStr ''Unknown'', Sponsor = JStr ''Unknown'', Vaccines = ''Not reported'' \<rparr>
   \<and> detail_of empty_status_trial =
       Inr \<lparr> det_Title = JStr ''Trial D'', det_Phase = ''Not reported'', det_Status = JStr '''',
             det_Sponsor = JStr ''Unknown'', det_Vaccines = [''Not reported''],
             det_Diseases = JArr [], det_Outcomes = [] \<rparr>
   \<and> (case (summary_of empty_status_trial, detail_of empty_status_trial) of
        (Inr row, Inr detail) \<Rightarrow> Status row \<noteq> det_Status detail
      | _ \<Rightarrow> False)"
  by (simp add: empty_status_trial_def normalizer_defs ok_defs)

text \<open>
  Claim C6, amended: from every raw trial object of the registry's types both
  normalizers return a record, and whenever both return, the two records agree on
  title, sponsor and phases, and on the status when the reported status is missing
  or has a truth value.
\<close>

theorem summary_and_detail_agree:
  "(detail_ok s \<longrightarrow> (\<exists>row detail. summary_of s = Inr row \<and> detail_of s = Inr detail))
   \<and> (\<forall>row detail. summary_of s = Inr row \<longrightarrow> detail_of s = Inr detail \<longrightarrow>
        Title row = det_Title detail
        \<and> Sponsor row = det_Sponsor detail
        \<and> Phase row = det_Phase detail
        \<and> ((case field_at s [''protocolSection'', ''statusModule'', ''overallStatus''] of
               None \<Rightarrow> True | Some v \<Rightarrow> truthy v)
             \<longrightarrow> Status row = det_Status detail))"
proof (intro conjI allI impI)
  assume ok: "detail_ok s"
  from summary_of_total [OF detail_ok_study_ok [OF ok]] obtain row where
    row: "summary_of s = Inr row" by (rule exE)
  from detail_of_total [OF ok] obtain detail where detail: "detail_of s = Inr detail"
    by (rule exE)
  show "\<exists>row detail. summary_of s = Inr row \<and> detail_of s = Inr detail"
    by (intro exI [where x = row] exI [where x = detail] conjI) (rule row detail)+
next
  fix row detail
  assume row: "summary_of s = Inr row" and detail: "detail_of s = Inr detail"
  from agree_on_copied_fields [OF row detail]
  show "Title row = det_Title detail" "Sponsor row = det_Sponsor detail"
    "Phase row = det_Phase detail" .
next
  fix row detail
  assume "summary_of s = Inr row" "detail_of s = Inr detail"
    "case field_at s [''protocolSection'', ''statusModule'', ''overallStatus''] of
        None \<Rightarrow> True | Some v \<Rightarrow> truthy v"
  then show "Status row = det_Status detail" by (rule agree_on_reported_status)
qed

theorem summary_and_detail_agree_witness:
  "detail_ok recruiting_trial
   \<and> (\<exists>row detail. summary_of recruiting_trial = Inr row \<and> detail_of recruiting_trial = Inr detail
        \<and> Title row = det_Title detail \<and> Sponsor row = det_Sponsor detail
        \<and> Phase row = det_Phase detail \<and> Status row = det_Status detail)"
proof -
  note claim = summary_and_detail_agree [of recruiting_trial]
  have ok: "detail_ok recruiting_trial" by (simp add: recruiting_trial_def ok_defs)
  have reported: "case field_at recruiting_trial
        [''protocolSection'', ''statusModule'', ''overallStatus''] of
      None \<Rightarrow> True | Some v \<Rightarrow> truthy v"
    by (simp add: recruiting_trial_def)
  from conjunct1 [OF claim] ok
  have "\<exists>row detail. summary_of recruiting_trial = Inr row \<and> detail_of recruiting_trial = Inr detail"
    by (rule mp)
  then obtain row detail where row: "summary_of recruiting_trial = Inr row"
    and detail: "detail_of recruiting_trial = Inr detail" by (elim exE conjE)
  from conjunct2 [OF claim] have "\<forall>detail. summary_of recruiting_trial = Inr row \<longrightarrow>
        detail_of recruiting_trial = Inr detail \<longrightarrow>
        Title row = det_Title detail
        \<and> Sponsor row = det_Sponsor detail
        \<and> Phase row = det_Phase detail
        \<and> ((case field_at recruiting_trial [''protocolSection'', ''statusModule'', ''overallStatus''] of
               None \<Rightarrow> True | Some v \<Rightarrow> truthy v)
             \<longrightarrow> Status row = det_Status detail)" by (rule allE)
  then have "summary_of recruiting_trial = Inr row \<longrightarrow>
        detail_of recruiting_trial = Inr detail \<longrightarrow>
        Title row = det_Title detail
        \<and> Sponsor row = det_Sponsor detail
        \<and> Phase row = det_Phase detail
        \<and> ((case field_at recruiting_trial [''protocolSection'', ''statusModule'', ''overallStatus''] of
               None \<Rightarrow> True | Some v \<Rightarrow> truthy v)
             \<longrightarrow> Status row = det_Status detail)" by (rule allE)
  note agree = mp [OF mp [OF this row] detail]
  from conjunct1 [OF agree] have t: "Title row = det_Title detail" .
  from conjunct1 [OF conjunct2 [OF agree]] have s: "Sponsor row = det_Sponsor detail" .
  from conjunct1 [OF conjunct2 [OF conjunct2 [OF agree]]]
  have p: "Phase row = det_Phase detail" .
  note st = conjunct2 [OF conjunct2 [OF conjunct2 [OF agree]]]
  from mp [OF st reported] have u: "Status row = det_Status detail" .
  have "\<exists>row detail. summary_of recruiting_trial = Inr row \<and> detail_of recruiting_trial = Inr detail
        \<and> Title row = det_Title detail \<and> Sponsor row = det_Sponsor detail
        \<and> Phase row = det_Phase detail \<and> Status row = det_Status detail"
    by (intro exI [where x = row] exI [where x = detail] conjI) (rule row detail t s p u)+
  with ok show ?thesis by (rule conjI)
qed

section \<open>The trials of the product itself\<close>

text \<open>
  Claim C5: the trials of the product are the hits whose product set, joined and in
  lower case, contains the product name in lower case, where the product set is the
  union of the intervention names and the names of the arm groups. The code builds
  the set from the intervention names alone: the hit below lists a placebo as its
  intervention and names Acme-Vax in an arm group; its product set as the normalizers
  build it holds Acme-Vax, the joined set contains the name in whatever order the set
  is visited, and in whatever order the set is visited the hit is not among the
  trials of the product.
\<close>

theorem own_trials_skip_arm_names:
  "study_ok acme_trial
   \<and> extract_vaccines acme_arms = Inr [''Placebo'', ''Acme-Vax'']
   \<and> (\<forall>visit. (\<forall>vs. set (visit vs) = set vs \<and> length (visit vs) = length vs) \<longrightarrow>
        py_str_in (lower ''Acme-Vax'')
          (join '' '' (map lower (visit [''Placebo'', ''Acme-Vax''])))
        \<and> own_trials visit ''Acme-Vax'' [acme_trial] = Inr [])"
proof (intro conjI allI impI)
  show "study_ok acme_trial" by (simp add: acme_trial_def acme_arms_def ok_defs)
  show "extract_vaccines acme_arms = Inr [''Placebo'', ''Acme-Vax'']"
    by (simp add: acme_arms_def normalizer_defs)
next
  fix visit :: "str_set \<Rightarrow> string list"
  assume members: "\<forall>vs. set (visit vs) = set vs \<and> length (visit vs) = length vs"
  from members have "set (visit [''Placebo'', ''Acme-Vax'']) = set [''Placebo'', ''Acme-Vax'']
      \<and> length (visit [''Placebo'', ''Acme-Vax'']) = length [''Placebo'', ''Acme-Vax'']"
    by (rule allE)
  then have "set (visit [''Placebo'', ''Acme-Vax'']) = {''Placebo'', ''Acme-Vax''}"
    "length (visit [''Placebo'', ''Acme-Vax'']) = 2" by simp_all
  moreover have "''Placebo'' \<noteq> ''Acme-Vax''" by simp
  ultimately have "visit [''Placebo'', ''Acme-Vax''] = [''Placebo'', ''Acme-Vax'']
      \<or> visit [''Placebo'', ''Acme-Vax''] = [''Acme-Vax'', ''Placebo'']"
    by (rule visit_two)
  then show "py_str_in (lower ''Acme-Vax'')
      (join '' '' (map lower (visit [''Placebo'', ''Acme-Vax''])))"
  proof (rule disjE)
    assume "visit [''Placebo'', ''Acme-Vax''] = [''Placebo'', ''Acme-Vax'']"
    with acme_joined(1) show ?thesis by simp
  next
    assume "visit [''Placebo'', ''Acme-Vax''] = [''Acme-Vax'', ''Placebo'']"
    with acme_joined(2) show ?thesis by simp
  qed
next
  fix visit :: "str_set \<Rightarrow> string list"
  assume members: "\<forall>vs. set (visit vs) = set vs \<and> length (visit vs) = length vs"
  from members have "set (visit [''Placebo'']) = set [''Placebo'']
      \<and> length (visit [''Placebo'']) = length [''Placebo'']"
    by (rule allE)
  then have "set (visit [''Placebo'']) = {''Placebo''}" "length (visit [''Placebo'']) = 1"
    by simp_all
  then have "visit [''Placebo''] = [''Placebo'']" by (rule visit_one)
  then show "own_trials visit ''Acme-Vax'' [acme_trial] = Inr []" by (rule own_trials_acme)
qed

theorem own_trials_skip_arm_names_witness:
  "py_str_in (lower ''Acme-Vax'') (join '' '' (map lower [''Placebo'', ''Acme-Vax'']))
   \<and> own_trials (\<lambda>vs. vs) ''Acme-Vax'' [acme_trial] = Inr []
   \<and> py_str_in (lower ''Acme-Vax'') (join '' '' (map lower (rev [''Placebo'', ''Acme-Vax''])))
   \<and> own_trials rev ''Acme-Vax'' [acme_trial] = Inr []"
proof -
  note claim = conjunct2 [OF conjunct2 [OF own_trials_skip_arm_names]]
  have h1: "\<forall>vs :: str_set. set ((\<lambda>vs. vs) vs) = set vs \<and> length ((\<lambda>vs. vs) vs) = length vs"
    by simp
  have h2: "\<forall>vs :: str_set. set (rev vs) = set vs \<and> length (rev vs) = length vs" by simp
  from claim have "(\<forall>vs :: str_set. set ((\<lambda>vs. vs) vs) = set vs \<and> length ((\<lambda>vs. vs) vs) = length vs) \<longrightarrow>
        py_str_in (lower ''Acme-Vax'')
          (join '' '' (map lower ((\<lambda>vs. vs) [''Placebo'', ''Acme-Vax''])))
        \<and> own_trials (\<lambda>vs. vs) ''Acme-Vax'' [acme_trial] = Inr []" by (rule allE)
  from mp [OF this h1]
  have a: "py_str_in (lower ''Acme-Vax'') (join '' '' (map lower [''Placebo'', ''Acme-Vax'']))"
    and b: "own_trials (\<lambda>vs. vs) ''Acme-Vax'' [acme_trial] = Inr []" by simp_all
  from claim have "(\<forall>vs :: str_set. set (rev vs) = set vs \<and> length (rev vs) = length vs) \<longrightarrow>
        py_str_in (lower ''Acme-Vax'')
          (join '' '' (map lower (rev [''Placebo'', ''Acme-Vax''])))
        \<and> own_trials rev ''Acme-Vax'' [acme_trial] = Inr []" by (rule allE)
  from mp [OF this h2]
  have c: "py_str_in (lower ''Acme-Vax'') (join '' '' (map lower (rev [''Placebo'', ''Acme-Vax''])))"
    and d: "own_trials rev ''Acme-Vax'' [acme_trial] = Inr []" by (rule conjunct1, rule conjunct2)
  from a b c d show ?thesis by (intro conjI)
qed

section \<open>The paginated fetcher\<close>

text \<open>
  Claim C2: the delay between requests is performed only between pages actually
  issued and never after the final page; a run whose pages return 100, 100 and 0
  records, with tokens on the first two, performs exactly 2 delays. The code sleeps
  after every page that has records and a token (line 80) and tests the page cap
  only afterwards, at the head of the loop (line 22). When the run ends at the cap,
  its final page is followed by a delay: with a cap of 1 the run is one request and
  one delay, and with the cap of 10 of the disease search a registry that always has
  a next page gets 10 requests and 10 delays, the last event being a delay.
\<close>

theorem delay_after_capped_page:
  "fetch_all_vaccine_trials endless_registry (JStr ''RSV'') 1 =
     (Inr [bare_row], [Request (JStr ''RSV'') None, Sleep])
   \<and> length (requests (snd (fetch_all_vaccine_trials endless_registry (JStr ''RSV'') 10))) = 10
   \<and> sleeps (snd (fetch_all_vaccine_trials endless_registry (JStr ''RSV'') 10)) = 10
   \<and> last (snd (fetch_all_vaccine_trials endless_registry (JStr ''RSV'') 10)) = Sleep"
proof -
  have one: "fetch_loop endless_registry (JStr ''RSV'') 1 [bare_row] (JStr ''next'') (Suc 0) =
      (Inr [bare_row], [])"
    by (simp add: fetch_loop_stop)
  have "fetch_loop endless_registry (JStr ''RSV'') 1 [] JNull 0 =
      (Inr [bare_row], [Request (JStr ''RSV'') None, Sleep])"
    using fetch_loop_next [of 0 1 endless_registry "JStr ''RSV''" JNull token_page "[]"
        "[bare_row]" "JStr ''next''"] one
    by (simp add: endless_registry_def read_page_token_page token_param_def)
  then have a: "fetch_all_vaccine_trials endless_registry (JStr ''RSV'') 1 =
     (Inr [bare_row], [Request (JStr ''RSV'') None, Sleep])"
    by (simp add: fetch_all_vaccine_trials_def)
  have endless: "\<forall>n sent. \<exists>data. endless_registry n (JStr ''RSV'') sent = Body data
      \<and> page_continues data"
    by (simp add: endless_registry_def page_continues_token_page)
  let ?loop = "fetch_loop endless_registry (JStr ''RSV'') 10 [] JNull 0"
  from endless fetch_loop_endless [where remote = endless_registry and disease = "JStr ''RSV''"
      and max_pages = 10 and all_results = "[]" and page_token = JNull and page_count = 0]
  have n: "length (requests (snd ?loop)) = 10" and ok: "\<exists>rows. fst ?loop = Inr rows"
    by simp_all
  from endless fetch_loop_endless_sleeps [where remote = endless_registry
      and disease = "JStr ''RSV''" and max_pages = 10 and all_results = "[]"
      and page_token = JNull and page_count = 0]
  have s: "sleeps (snd ?loop) = length (requests (snd ?loop))" and l: "last (snd ?loop) = Sleep"
    by simp_all
  from ok have ev: "snd (fetch_all_vaccine_trials endless_registry (JStr ''RSV'') 10) = snd ?loop"
    by (auto simp: fetch_all_events)
  from a n s l ev show ?thesis by simp
qed

text \<open>
  What holds of the delays in every run: each delay directly follows a request and,
  unless it is the last event of the run, is directly followed by the next request;
  there are at most as many delays as requests; a run that issues fewer requests
  than \<^verbatim>\<open>max_pages\<close> performs no delay after its final request. A run whose
  first two pages have records and tokens and whose third page has no records
  performs, with \<^verbatim>\<open>max_pages\<close> at least 3, exactly 2 delays and 3 requests and
  returns one row per study of the first two pages.
\<close>

lemma delays_in_every_run:
  "(\<forall>i < length (snd (fetch_all_vaccine_trials remote disease max_pages)).
      snd (fetch_all_vaccine_trials remote disease max_pages) ! i = Sleep \<longrightarrow>
        0 < i \<and> is_request (snd (fetch_all_vaccine_trials remote disease max_pages) ! (i - 1))
        \<and> (Suc i < length (snd (fetch_all_vaccine_trials remote disease max_pages)) \<longrightarrow>
             is_request (snd (fetch_all_vaccine_trials remote disease max_pages) ! Suc i)))
   \<and> sleeps (snd (fetch_all_vaccine_trials remote disease max_pages))
        \<le> length (requests (snd (fetch_all_vaccine_trials remote disease max_pages)))
   \<and> (int (length (requests (snd (fetch_all_vaccine_trials remote disease max_pages)))) < max_pages
        \<longrightarrow> snd (fetch_all_vaccine_trials remote disease max_pages) \<noteq> []
        \<longrightarrow> Suc (sleeps (snd (fetch_all_vaccine_trials remote disease max_pages)))
              = length (requests (snd (fetch_all_vaccine_trials remote disease max_pages)))
            \<and> last (snd (fetch_all_vaccine_trials remote disease max_pages)) \<noteq> Sleep)
   \<and> ((\<forall>sent. remote 0 disease sent = Body page1) \<and> page_continues page1
        \<and> (\<forall>sent. remote 1 disease sent = Body page2) \<and> page_continues page2
        \<and> (\<forall>sent. remote 2 disease sent = Body page3) \<and> page_empty page3
        \<and> field_at page1 [''studies''] = Some (JArr studies1)
        \<and> field_at page2 [''studies''] = Some (JArr studies2)
        \<and> 3 \<le> max_pages
        \<longrightarrow> sleeps (snd (fetch_all_vaccine_trials remote disease max_pages)) = 2
            \<and> length (requests (snd (fetch_all_vaccine_trials remote disease max_pages))) = 3
            \<and> (\<exists>rows. fst (fetch_all_vaccine_trials remote disease max_pages) = Inr rows
                  \<and> length rows = length studies1 + length studies2))"
proof -
  let ?loop = "fetch_loop remote disease max_pages [] JNull 0"
  let ?all = "fetch_all_vaccine_trials remote disease max_pages"
  have paced: "paced (snd ?loop)" by (rule fetch_loop_paced)
  have ends: "fst ?loop = Inl RequestException \<Longrightarrow> snd ?loop \<noteq> [] \<and> last (snd ?loop) \<noteq> Sleep"
    by (rule fetch_loop_raised_ends)
  have ev: "snd ?all = snd ?loop @ (if fst ?loop = Inl RequestException then [Error_shown] else [])"
    by (rule fetch_all_events)
  have a: "\<forall>i < length (snd ?all). snd ?all ! i = Sleep \<longrightarrow>
        0 < i \<and> is_request (snd ?all ! (i - 1))
        \<and> (Suc i < length (snd ?all) \<longrightarrow> is_request (snd ?all ! Suc i))"
  proof (intro allI impI)
    fix i assume i: "i < length (snd ?all)" and s: "snd ?all ! i = Sleep"
    from i s ev have il: "i < length (snd ?loop)"
      by (cases "i < length (snd ?loop)") (auto simp: nth_append split: if_splits)
    with s ev have sl: "snd ?loop ! i = Sleep" by (simp add: nth_append)
    from paced_sleep_follows_request [OF paced il sl]
    have before: "0 < i" "is_request (snd ?loop ! (i - 1))" by simp_all
    from il have "i - 1 < length (snd ?loop)" by simp
    with before ev have b: "is_request (snd ?all ! (i - 1))" by (simp add: nth_append)
    have c: "is_request (snd ?all ! Suc i)" if n: "Suc i < length (snd ?all)"
    proof (cases "Suc i < length (snd ?loop)")
      case True
      from paced_sleep_precedes_request [OF paced True sl] True ev show ?thesis
        by (simp add: nth_append)
    next
      case False
      with il have last: "i = length (snd ?loop) - 1" "snd ?loop \<noteq> []" by auto
      with sl have "last (snd ?loop) = Sleep" by (simp add: last_conv_nth)
      with ends have "fst ?loop \<noteq> Inl RequestException" by blast
      with ev n False show ?thesis by simp
    qed
    from before(1) b c
    show "0 < i \<and> is_request (snd ?all ! (i - 1))
        \<and> (Suc i < length (snd ?all) \<longrightarrow> is_request (snd ?all ! Suc i))" by blast
  qed
  have b: "sleeps (snd ?all) \<le> length (requests (snd ?all))"
    using paced_sleeps_le [OF paced] by (simp add: fetch_all_requests fetch_all_sleeps)
  have c: "int (length (requests (snd ?all))) < max_pages \<longrightarrow> snd ?all \<noteq> [] \<longrightarrow>
      Suc (sleeps (snd ?all)) = length (requests (snd ?all)) \<and> last (snd ?all) \<noteq> Sleep"
  proof (intro impI)
    assume less: "int (length (requests (snd ?all))) < max_pages" and ne: "snd ?all \<noteq> []"
    from ne ev ends have ne': "snd ?loop \<noteq> []" by (auto split: if_splits)
    from less have "int 0 + int (length (requests (snd ?loop))) < max_pages"
      by (simp add: fetch_all_requests)
    from fetch_loop_no_trailing_sleep [OF refl this ne']
    have x: "Suc (sleeps (snd ?loop)) = length (requests (snd ?loop))"
      and y: "last (snd ?loop) \<noteq> Sleep" by simp_all
    from x have "Suc (sleeps (snd ?all)) = length (requests (snd ?all))"
      by (simp only: fetch_all_requests fetch_all_sleeps)
    moreover from y ne' have "last (snd ?all) \<noteq> Sleep" by (simp add: ev)
    ultimately
    show "Suc (sleeps (snd ?all)) = length (requests (snd ?all)) \<and> last (snd ?all) \<noteq> Sleep"
      by (rule conjI)
  qed
  have d: "(\<forall>sent. remote 0 disease sent = Body page1) \<and> page_continues page1
        \<and> (\<forall>sent. remote 1 disease sent = Body page2) \<and> page_continues page2
        \<and> (\<forall>sent. remote 2 disease sent = Body page3) \<and> page_empty page3
        \<and> field_at page1 [''studies''] = Some (JArr studies1)
        \<and> field_at page2 [''studies''] = Some (JArr studies2)
        \<and> 3 \<le> max_pages
        \<longrightarrow> sleeps (snd ?all) = 2 \<and> length (requests (snd ?all)) = 3
            \<and> (\<exists>rows. fst ?all = Inr rows \<and> length rows = length studies1 + length studies2)"
  proof
    assume h: "(\<forall>sent. remote 0 disease sent = Body page1) \<and> page_continues page1
        \<and> (\<forall>sent. remote 1 disease sent = Body page2) \<and> page_continues page2
        \<and> (\<forall>sent. remote 2 disease sent = Body page3) \<and> page_empty page3
        \<and> field_at page1 [''studies''] = Some (JArr studies1)
        \<and> field_at page2 [''studies''] = Some (JArr studies2)
        \<and> 3 \<le> max_pages"
    then have p1: "\<forall>sent. remote 0 disease sent = Body page1" "page_continues page1"
        "field_at page1 [''studies''] = Some (JArr studies1)"
      and p2: "\<forall>sent. remote 1 disease sent = Body page2" "page_continues page2"
        "field_at page2 [''studies''] = Some (JArr studies2)"
      and p3: "\<forall>sent. remote 2 disease sent = Body page3" "page_empty page3"
      and cap: "3 \<le> max_pages" by simp_all
    from p1 p2 p3 cap have "\<exists>rows t1 t2. ?loop =
        (Inr rows, [Request disease None, Sleep, Request disease (Some t1), Sleep,
                    Request disease (Some t2)])
       \<and> length rows = length studies1 + length studies2"
      by (rule three_page_run)
    then obtain rows t1 t2 where run: "?loop =
        (Inr rows, [Request disease None, Sleep, Request disease (Some t1), Sleep,
                    Request disease (Some t2)])"
      and n: "length rows = length studies1 + length studies2" by (elim exE conjE)
    from run have "?all = (Inr rows, [Request disease None, Sleep, Request disease (Some t1),
        Sleep, Request disease (Some t2)])"
      by (simp add: fetch_all_vaccine_trials_def)
    with n show "sleeps (snd ?all) = 2 \<and> length (requests (snd ?all)) = 3
            \<and> (\<exists>rows. fst ?all = Inr rows \<and> length rows = length studies1 + length studies2)"
      by (simp add: requests_simps sleeps_simps)
  qed
  from a b c d show ?thesis by (intro conjI)
qed

text \<open>The run of 100, 100 and 0 records.\<close>

lemma delays_in_the_scenario:
  "sleeps (snd (fetch_all_vaccine_trials scenario_registry (JStr ''RSV'') 10)) = 2
   \<and> length (requests (snd (fetch_all_vaccine_trials scenario_registry (JStr ''RSV'') 10))) = 3
   \<and> (\<exists>rows. fst (fetch_all_vaccine_trials scenario_registry (JStr ''RSV'') 10) = Inr rows
         \<and> length rows = 200)"
proof -
  note claim = delays_in_every_run [of scenario_registry "JStr ''RSV''" 10
      "full_page ''t1''" "full_page ''t2''" empty_page
      "replicate 100 (JObj [])" "replicate 100 (JObj [])"]
  have h: "(\<forall>sent. scenario_registry 0 (JStr ''RSV'') sent = Body (full_page ''t1''))
        \<and> page_continues (full_page ''t1'')
        \<and> (\<forall>sent. scenario_registry 1 (JStr ''RSV'') sent = Body (full_page ''t2''))
        \<and> page_continues (full_page ''t2'')
        \<and> (\<forall>sent. scenario_registry 2 (JStr ''RSV'') sent = Body empty_page)
        \<and> page_empty empty_page
        \<and> field_at (full_page ''t1'') [''studies''] = Some (JArr (replicate 100 (JObj [])))
        \<and> field_at (full_page ''t2'') [''studies''] = Some (JArr (replicate 100 (JObj [])))
        \<and> (3::int) \<le> 10"
  proof -
    have "field_at (full_page ''t1'') [''studies''] = Some (JArr (replicate 100 (JObj [])))"
      "field_at (full_page ''t2'') [''studies''] = Some (JArr (replicate 100 (JObj [])))"
      by (simp_all add: full_page_def)
    then show ?thesis
      by (simp add: scenario_registry_def page_continues_full_page page_empty_empty_page)
  qed
  from mp [OF conjunct2 [OF conjunct2 [OF conjunct2 [OF claim]]] h]
  show ?thesis by simp
qed




text \<open>
  Claim C4: a run in which some request fails returns the empty list, whatever was
  accumulated from the pages before, and raises nothing; the handler's error message
  is the last event. The request number i of the run is answered by the registry's
  answer number i.
\<close>

theorem failed_request_returns_empty:
  assumes "fetch_all_vaccine_trials remote disease max_pages = (outcome, events)"
    and "i < length (requests events)"
    and "requests events ! i = Request disease' sent"
    and "remote i disease' sent = Failed"
  shows "outcome = Inr [] \<and> last events = Error_shown"
proof -
  let ?loop = "fetch_loop remote disease max_pages [] JNull 0"
  from assms(1) have ev: "events = snd (fetch_all_vaccine_trials remote disease max_pages)"
    and out: "outcome = fst (fetch_all_vaccine_trials remote disease max_pages)" by simp_all
  from ev have req: "requests events = requests (snd ?loop)" by (simp add: fetch_all_requests)
  from assms(2,3,4) req have "i < length (requests (snd ?loop))"
    "requests (snd ?loop) ! i = Request disease' sent" "remote (0 + i) disease' sent = Failed"
    by simp_all
  with refl have "fst ?loop = Inl RequestException" by (rule fetch_loop_failed_request)
  with ev out show ?thesis by (simp add: fetch_all_events fetch_all_outcome)
qed

theorem failed_request_returns_empty_witness:
  "fetch_all_vaccine_trials failing_registry (JStr ''RSV'') 10 =
     (Inr [], [Request (JStr ''RSV'') None, Sleep, Request (JStr ''RSV'') (Some (JStr ''next'')),
               Error_shown])
   \<and> failing_registry 1 (JStr ''RSV'') (Some (JStr ''next'')) = Failed
   \<and> (Inr [] :: py_error + trial_summary list) = Inr []
   \<and> last [Request (JStr ''RSV'') None, Sleep, Request (JStr ''RSV'') (Some (JStr ''next'')),
            Error_shown] = Error_shown"
proof -
  have f: "failing_registry 1 (JStr ''RSV'') (Some (JStr ''next'')) = Failed"
    by (simp add: failing_registry_def)
  have i: "1 < length (requests [Request (JStr ''RSV'') None, Sleep,
      Request (JStr ''RSV'') (Some (JStr ''next'')), Error_shown])"
    "requests [Request (JStr ''RSV'') None, Sleep,
      Request (JStr ''RSV'') (Some (JStr ''next'')), Error_shown] ! 1
      = Request (JStr ''RSV'') (Some (JStr ''next''))"
    by (simp_all add: requests_simps)
  from failed_request_returns_empty [OF failing_run i f] failing_run f show ?thesis by simp
qed

section \<open>The detail fetcher\<close>

text \<open>
  Claim C7: for every identifier the detail fetcher returns the sentinel when the
  request fails (a not-found answer among the failures) and the trial's detail when
  the registry answers with a raw trial object; it never raises the HTTP client's
  exception.
\<close>

theorem fetch_detail_returns_sentinel:
  "(remote nct_id = Failed \<longrightarrow> fetch_trial_details_with_vaccines remote nct_id = Inr None)
   \<and> (\<forall>data. remote nct_id = Body data \<longrightarrow> detail_ok data \<longrightarrow>
        (\<exists>detail. detail_of data = Inr detail
           \<and> fetch_trial_details_with_vaccines remote nct_id = Inr (Some detail)))
   \<and> fetch_trial_details_with_vaccines remote nct_id \<noteq> Inl RequestException"
proof (intro conjI allI impI)
  assume "remote nct_id = Failed"
  then show "fetch_trial_details_with_vaccines remote nct_id = Inr None"
    by (simp add: fetch_trial_details_with_vaccines_def received_def except_request_def obind_def)
next
  fix data assume body: "remote nct_id = Body data" and ok: "detail_ok data"
  from detail_of_total [OF ok] obtain detail where detail: "detail_of data = Inr detail"
    by (rule exE)
  with body have "fetch_trial_details_with_vaccines remote nct_id = Inr (Some detail)"
    by (simp add: fetch_trial_details_with_vaccines_def received_def except_request_def obind_def)
  with detail show "\<exists>detail. detail_of data = Inr detail
           \<and> fetch_trial_details_with_vaccines remote nct_id = Inr (Some detail)"
    by (intro exI [where x = detail] conjI)
next
  show "fetch_trial_details_with_vaccines remote nct_id \<noteq> Inl RequestException"
    by (simp add: fetch_trial_details_with_vaccines_def except_request_def split: sum.splits)
qed

theorem fetch_detail_returns_sentinel_witness:
  "fetch_trial_details_with_vaccines recruiting_registry (JStr ''NCT99999999'') = Inr None
   \<and> detail_ok recruiting_trial
   \<and> (\<exists>detail. detail_of recruiting_trial = Inr detail
        \<and> fetch_trial_details_with_vaccines recruiting_registry (JStr ''NCT00000005'')
            = Inr (Some detail))"
proof -
  note missing = fetch_detail_returns_sentinel [of recruiting_registry "JStr ''NCT99999999''"]
  note found = fetch_detail_returns_sentinel [of recruiting_registry "JStr ''NCT00000005''"]
  have f: "recruiting_registry (JStr ''NCT99999999'') = Failed"
    by (simp add: recruiting_registry_def)
  have b: "recruiting_registry (JStr ''NCT00000005'') = Body recruiting_trial"
    by (simp add: recruiting_registry_def)
  have ok: "detail_ok recruiting_trial" by (simp add: recruiting_trial_def ok_defs)
  from mp [OF conjunct1 [OF missing] f]
  have a: "fetch_trial_details_with_vaccines recruiting_registry (JStr ''NCT99999999'') = Inr None" .
  from conjunct1 [OF conjunct2 [OF found]]
  have "recruiting_registry (JStr ''NCT00000005'') = Body recruiting_trial \<longrightarrow>
      detail_ok recruiting_trial \<longrightarrow>
        (\<exists>detail. detail_of recruiting_trial = Inr detail
           \<and> fetch_trial_details_with_vaccines recruiting_registry (JStr ''NCT00000005'')
              = Inr (Some detail))" by (rule allE)
  from mp [OF mp [OF this b] ok] a ok show ?thesis by (intro conjI)
qed

end
